theory Spec2Isabelle
  imports Complex_Main "HOL-Library.Sublist"
begin

section \<open>Python values and strings\<close>

text \<open>
  A Python \<open>str\<close> is a list of code points. The model keeps the code points below 256
  (\<open>char\<close>), which covers every keyword and pattern of \<open>app.py\<close>; \<open>length\<close> then
  counts code points, as \<open>len\<close> does.

  The values that reach \<open>extract_disease_name\<close> are the cells of the \<open>text\<close> column
  of the data frame: strings, and the missing-value markers and scalars pandas can put
  into such a column.
\<close>

datatype pyval = PyStr string | PyNone | PyNaN | PyBool bool | PyInt int

definition digit_char :: "nat \<Rightarrow> char" where
  "digit_char n = char_of (48 + n)"

function str_nat :: "nat \<Rightarrow> string" where
  "str_nat n = (if n < 10 then [digit_char n] else str_nat (n div 10) @ [digit_char (n mod 10)])"
  by pat_completeness auto
termination
  by (relation "measure (\<lambda>n. n)") auto

declare str_nat.simps [simp del]

definition str_int :: "int \<Rightarrow> string" where
  "str_int i = (if i < 0 then CHR ''-'' # str_nat (nat (- i)) else str_nat (nat i))"

text \<open>\<open>str(x)\<close>.\<close>

fun py_str :: "pyval \<Rightarrow> string" where
  "py_str (PyStr s) = s"
| "py_str PyNone = ''None''"
| "py_str PyNaN = ''nan''"
| "py_str (PyBool b) = (if b then ''True'' else ''False'')"
| "py_str (PyInt i) = str_int i"

text \<open>
  \<open>str.lower\<close> on the code points below 256: the ASCII capitals and the Latin-1
  capitals (\<open>U+00C0\<close> to \<open>U+00DE\<close>, without the multiplication sign \<open>U+00D7\<close>) move up
  by 32, every other code point stays.
\<close>

definition lower_char :: "char \<Rightarrow> char" where
  "lower_char c =
     (let n = (of_char c :: nat)
      in if (65 \<le> n \<and> n \<le> 90) \<or> (192 \<le> n \<and> n \<le> 222 \<and> n \<noteq> 215)
         then char_of (n + 32) else c)"

definition lower :: "string \<Rightarrow> string" where
  "lower s = map lower_char s"

text \<open>\<open>sub in s\<close> on strings: \<open>sub\<close> occurs in \<open>s\<close> as a contiguous run.\<close>

fun str_in :: "string \<Rightarrow> string \<Rightarrow> bool" where
  "str_in sub [] = (sub = [])"
| "str_in sub (c # cs) = (prefix sub (c # cs) \<or> str_in sub cs)"

text \<open>\<open>s.find(sub)\<close>: the lowest index at which \<open>sub\<close> occurs in \<open>s\<close>, or \<open>-1\<close>.\<close>

fun str_find :: "string \<Rightarrow> string \<Rightarrow> int" where
  "str_find [] sub = (if sub = [] then 0 else - 1)"
| "str_find (c # cs) sub =
     (if prefix sub (c # cs) then 0
      else (let r = str_find cs sub in if r < 0 then - 1 else r + 1))"

text \<open>
  \<open>s[a:b]\<close>: an index below zero counts from the end, and both ends are clipped to the
  string.
\<close>

definition slice_bound :: "nat \<Rightarrow> int \<Rightarrow> nat" where
  "slice_bound n i = (if i < 0 then nat (max (int n + i) 0) else min (nat i) n)"

definition py_slice :: "'a list \<Rightarrow> int \<Rightarrow> int \<Rightarrow> 'a list" where
  "py_slice s a b =
     (let lo = slice_bound (length s) a; hi = slice_bound (length s) b
      in take (hi - lo) (drop lo s))"

section \<open>The disease classifier\<close>

text \<open>
  \<open>FastRAGSystem.extract_disease_name\<close>. The keyword table is a dict literal with
  distinct keys; iterating over \<open>items()\<close> follows the order of the literal, so the table
  is the list of its pairs.
\<close>

definition positive_conditions :: "(string \<times> string) list" where
  "positive_conditions =
    [(''emphysema'', ''Emphysema''), (''pneumonia'', ''Pneumonia''),
     (''pleural effusion'', ''Pleural Effusion''),
     (''atelectasis'', ''Atelectasis''), (''cardiomegaly'', ''Cardiomegaly''),
     (''pulmonary edema'', ''Pulmonary Edema''),
     (''pneumothorax'', ''Pneumothorax''), (''consolidation'', ''Consolidation''),
     (''fibrosis'', ''Fibrosis''),
     (''nodule'', ''Nodule''), (''mass'', ''Mass''), (''fracture'', ''Fracture''),
     (''tuberculosis'', ''Tuberculosis''),
     (''covid-19'', ''COVID-19''), (''bronchitis'', ''Bronchitis''),
     (''lung cancer'', ''Lung Cancer''),
     (''pulmonary embolism'', ''Pulmonary Embolism''),
     (''interstitial markings'', ''Interstitial Disease''),
     (''hyperinflated'', ''Emphysema''), (''hyperlucency'', ''Emphysema''),
     (''enlarged heart'', ''Cardiomegaly''),
     (''cardiac silhouette is enlarged'', ''Cardiomegaly'')]"

definition negation_words :: "string list" where
  "negation_words = [''no '', ''without '', ''absence of'', ''rule out'', ''r/o'']"

definition explicit_normal_patterns :: "string list" where
  "explicit_normal_patterns =
    [''normal chest'', ''clear lungs'', ''unremarkable'', ''no acute'',
     ''no active disease'', ''within normal limits'']"

definition negative_only_patterns :: "string list" where
  "negative_only_patterns =
    [''no pneumonia'', ''no consolidation'', ''no pleural effusion'', ''no pneumothorax'',
     ''no mass'', ''no nodules'', ''no fracture'']"

text \<open>
  The body of the \<open>if condition_key in report_lower\<close> branch up to \<open>is_negated\<close>: the
  20 characters before the first occurrence of the keyword are searched for a negation
  word.
\<close>

definition is_negated :: "string \<Rightarrow> string \<Rightarrow> bool" where
  "is_negated report_lower condition_key =
     (let condition_pos = str_find report_lower condition_key;
          text_before = py_slice report_lower (max 0 (condition_pos - 20)) condition_pos
      in list_ex (\<lambda>neg. str_in neg text_before) negation_words)"

text \<open>The \<open>for\<close> loop over the table; \<open>None\<close> when the loop ends without a \<open>return\<close>.\<close>

fun scan_conditions :: "(string \<times> string) list \<Rightarrow> string \<Rightarrow> string option" where
  "scan_conditions [] report_lower = None"
| "scan_conditions ((condition_key, condition_name) # rest) report_lower =
     (if str_in condition_key report_lower
      then (if \<not> is_negated report_lower condition_key then Some condition_name
            else scan_conditions rest report_lower)
      else scan_conditions rest report_lower)"

definition normal_findings :: "string \<Rightarrow> bool" where
  "normal_findings report_lower =
     (let has_explicit_normal = list_ex (\<lambda>pattern. str_in pattern report_lower) explicit_normal_patterns;
          negative_count = length (filter (\<lambda>pattern. str_in pattern report_lower) negative_only_patterns)
      in has_explicit_normal \<or> negative_count \<ge> 2)"

definition extract_disease_name :: "pyval \<Rightarrow> string" where
  "extract_disease_name report_text =
     (let report_lower = lower (py_str report_text)
      in case scan_conditions positive_conditions report_lower of
           Some condition_name \<Rightarrow> condition_name
         | None \<Rightarrow>
             if normal_findings report_lower then ''Normal Findings''
             else ''Radiographic Abnormality'')"


section \<open>Errors and list access\<close>

text \<open>
  The exceptions that the modelled code can raise. \<open>TypeError\<close> stands for the embedding
  provider's refusal of an input that is not a string, \<open>AttributeError\<close> is what the
  \<open>.str\<close> accessor of pandas raises on a column without strings.
\<close>

datatype error = IndexError | KeyError | ValueError | AssertionError | TypeError | AttributeError

text \<open>
  \<open>xs[i]\<close> on a Python list: a negative index counts from the end, \<open>xs[-1]\<close> is the last
  element; an index outside \<open>-len(xs) .. len(xs) - 1\<close> raises \<open>IndexError\<close>.
\<close>

definition py_index :: "'a list \<Rightarrow> int \<Rightarrow> error + 'a" where
  "py_index xs i =
     (if 0 \<le> i \<and> i < int (length xs) then Inr (xs ! nat i)
      else if i < 0 \<and> - int (length xs) \<le> i then Inr (xs ! nat (int (length xs) + i))
      else Inl IndexError)"

section \<open>The vector index (the \<open>faiss\<close> library, as \<open>app.py\<close> uses it)\<close>

text \<open>
  \<open>app.py\<close> calls \<open>faiss.normalize_L2\<close>, \<open>faiss.IndexFlatIP\<close>, \<open>index.add\<close> and
  \<open>index.search\<close>. The library is not part of the repository; the definitions of this
  section follow its documented behaviour. Components are real numbers, and the
  arithmetic is exact: the rounding of the library's 32-bit floats is not modelled, nor is
  the overflow or the underflow of a squared norm (the library stores a row whose
  squared norm overflows as zeros, and leaves a row whose squared norm underflows to
  zero as it is).
\<close>

type_synonym vec = "real list"

definition inner_product :: "vec \<Rightarrow> vec \<Rightarrow> real" where
  "inner_product x y = sum_list (map (\<lambda>(a, b). a * b) (zip x y))"

definition norm_L2sqr :: "vec \<Rightarrow> real" where
  "norm_L2sqr x = inner_product x x"

text \<open>
  \<open>faiss.normalize_L2\<close> scales every row by the inverse of its Euclidean norm; a row whose
  squared norm is not positive is left as it is.
\<close>

definition renorm_row :: "vec \<Rightarrow> vec" where
  "renorm_row x =
     (let nr = norm_L2sqr x
      in if nr > 0 then map (\<lambda>xi. xi * (1 / sqrt nr)) x else x)"

definition normalize_L2 :: "vec list \<Rightarrow> vec list" where
  "normalize_L2 x = map renorm_row x"

record IndexFlatIP =
  index_d :: nat
  index_xb :: "vec list"

definition new_IndexFlatIP :: "nat \<Rightarrow> IndexFlatIP" where
  "new_IndexFlatIP dimension = \<lparr>index_d = dimension, index_xb = []\<rparr>"

definition ntotal :: "IndexFlatIP \<Rightarrow> nat" where
  "ntotal index = length (index_xb index)"

text \<open>\<open>index.add(x)\<close>: the rows are appended in order; the wrapper asserts the dimension.\<close>

definition index_add :: "IndexFlatIP \<Rightarrow> vec list \<Rightarrow> error + IndexFlatIP" where
  "index_add index x =
     (if list_ex (\<lambda>row. length row \<noteq> index_d index) x then Inl AssertionError
      else Inr (index\<lparr>index_xb := index_xb index @ x\<rparr>))"

definition FLT_MAX :: real where
  "FLT_MAX = (2 ^ 24 - 1) * 2 ^ 104"

text \<open>
  The \<open>k\<close> best stored rows for one query, best first, as pairs of score and position.
  When fewer than \<open>k\<close> rows are stored, the library fills the remaining slots with the
  label \<open>-1\<close> and the score \<open>-FLT_MAX\<close>. The library scans the rows in storage order
  with a heap of \<open>k\<close> entries, which a row enters only with a score greater than the
  least one kept: among rows of equal score the ones stored first are kept, and the heap
  gives equal scores back with the greater label first.
\<close>

definition knn_inner_product :: "vec \<Rightarrow> vec list \<Rightarrow> nat \<Rightarrow> (real \<times> int) list" where
  "knn_inner_product q xb k =
     (let scored = zip (map (inner_product q) xb) (map int [0..<length xb]);
          kept = take k (sort_key (\<lambda>(score, label). - score) scored);
          ranked = sort_key (\<lambda>(score, label). - score)
                     (sort_key (\<lambda>(score, label). - label) kept)
      in ranked @ replicate (k - length xb) (- FLT_MAX, - 1))"

text \<open>
  \<open>index.search(x, k)\<close>: one row of \<open>k\<close> scores and one row of \<open>k\<close> labels per query.
  The wrapper asserts the dimension of the queries and \<open>k > 0\<close>.
\<close>

definition index_search ::
  "IndexFlatIP \<Rightarrow> vec list \<Rightarrow> int \<Rightarrow> error + (real list list \<times> int list list)" where
  "index_search index x k =
     (if list_ex (\<lambda>q. length q \<noteq> index_d index) x \<or> k \<le> 0 then Inl AssertionError
      else (let rows = map (\<lambda>q. knn_inner_product q (index_xb index) (nat k)) x
            in Inr (map (map fst) rows, map (map snd) rows)))"

section \<open>Data frames and the corpus loader\<close>

text \<open>
  A data frame as \<open>pd.read_csv\<close> yields it: a number of rows and named columns. A column is
  of dtype \<open>object\<close> or of another dtype (numbers, booleans); either way it holds one
  value per row. \<open>pd.read_csv\<close> gives dtype \<open>object\<close> to a column of strings, with \<open>NaN\<close>
  for the missing cells, and also to a column of booleans that has missing cells.
\<close>

datatype column = ObjectCol "pyval list" | OtherCol "pyval list"

record dataframe =
  nrows :: nat
  columns :: "(string \<times> column) list"

text \<open>\<open>column.tolist()\<close>.\<close>

fun tolist :: "column \<Rightarrow> pyval list" where
  "tolist (ObjectCol cells) = cells"
| "tolist (OtherCol cells) = cells"

fun is_object :: "column \<Rightarrow> bool" where
  "is_object (ObjectCol cells) = True"
| "is_object (OtherCol cells) = False"

definition has_column :: "dataframe \<Rightarrow> string \<Rightarrow> bool" where
  "has_column df name = (name \<in> set (map fst (columns df)))"

definition get_column :: "dataframe \<Rightarrow> string \<Rightarrow> column option" where
  "get_column df name = map_of (columns df) name"

text \<open>\<open>df[name] = col\<close>: replaces the column of that name, or appends a new one.\<close>

definition set_column :: "dataframe \<Rightarrow> string \<Rightarrow> column \<Rightarrow> dataframe" where
  "set_column df name col =
     (if has_column df name
      then df\<lparr>columns := map (\<lambda>(n, c). if n = name then (n, col) else (n, c)) (columns df)\<rparr>
      else df\<lparr>columns := columns df @ [(name, col)]\<rparr>)"

text \<open>\<open>df.select_dtypes(include=['object']).columns\<close>.\<close>

definition object_columns :: "dataframe \<Rightarrow> string list" where
  "object_columns df = map fst (filter (\<lambda>(n, c). is_object c) (columns df))"

fun is_missing :: "pyval \<Rightarrow> bool" where
  "is_missing PyNaN = True"
| "is_missing PyNone = True"
| "is_missing v = False"

fun is_bool :: "pyval \<Rightarrow> bool" where
  "is_bool (PyBool b) = True"
| "is_bool v = False"

fun is_int :: "pyval \<Rightarrow> bool" where
  "is_int (PyInt i) = True"
| "is_int v = False"

text \<open>
  \<open>df[x].str\<close>: pandas infers the kind of the values of the column, the missing ones
  left out, and raises \<open>AttributeError\<close> (\<open>Can only use .str accessor with string values\<close>)
  when they are all booleans or all numbers, and on every column that is not of dtype
  \<open>object\<close>. A column of strings, a column without any value and a column of mixed
  values pass.
\<close>

fun str_accessor :: "column \<Rightarrow> error + pyval list" where
  "str_accessor (ObjectCol cells) =
     (let present = filter (\<lambda>v. \<not> is_missing v) cells
      in if present \<noteq> [] \<and> (list_all is_bool present \<or> list_all is_int present)
         then Inl AttributeError else Inr cells)"
| "str_accessor (OtherCol cells) = Inl AttributeError"

text \<open>
  \<open>.len().mean()\<close> on the values that passed: the mean of the lengths of the strings, the
  other values left out; \<open>None\<close> stands for \<open>NaN\<close>, the mean of no value at all. The mean
  is an exact fraction here, a 64-bit float in pandas.
\<close>

definition str_len_mean :: "pyval list \<Rightarrow> rat option" where
  "str_len_mean cells =
     (let lens = List.map_filter (\<lambda>v. case v of PyStr t \<Rightarrow> Some (length t) | _ \<Rightarrow> None) cells
      in if lens = [] then None
         else Some (of_nat (sum_list lens) / of_nat (length lens)))"

text \<open>The key of the \<open>max\<close> call: \<open>lambda x: df[x].str.len().mean()\<close>.\<close>

definition mean_len_key :: "dataframe \<Rightarrow> string \<Rightarrow> error + rat option" where
  "mean_len_key df x =
     (case get_column df x of
        None \<Rightarrow> Inl KeyError
      | Some c \<Rightarrow>
          (case str_accessor c of
             Inl e \<Rightarrow> Inl e
           | Inr cells \<Rightarrow> Inr (str_len_mean cells)))"

text \<open>\<open>a > b\<close> on floats: false when either side is \<open>NaN\<close>.\<close>

fun nan_gt :: "rat option \<Rightarrow> rat option \<Rightarrow> bool" where
  "nan_gt (Some a) (Some b) = (a > b)"
| "nan_gt _ _ = False"

text \<open>
  \<open>max(items, key=key)\<close> on a non-empty sequence: the key of every item is computed, in
  order; the first item is the candidate, and a later item replaces the candidate when
  its key is greater. An exception of the key ends the call.
\<close>

fun max_loop :: "('a \<Rightarrow> error + rat option) \<Rightarrow> 'a \<Rightarrow> rat option \<Rightarrow> 'a list \<Rightarrow> error + 'a" where
  "max_loop key maxitem maxval [] = Inr maxitem"
| "max_loop key maxitem maxval (item # rest) =
     (case key item of
        Inl e \<Rightarrow> Inl e
      | Inr val \<Rightarrow>
          if nan_gt val maxval then max_loop key item val rest
          else max_loop key maxitem maxval rest)"

definition py_max :: "('a \<Rightarrow> error + rat option) \<Rightarrow> 'a \<Rightarrow> 'a list \<Rightarrow> error + 'a" where
  "py_max key first_item rest =
     (case key first_item of
        Inl e \<Rightarrow> Inl e
      | Inr val \<Rightarrow> max_loop key first_item val rest)"

definition placeholder_df :: dataframe where
  "placeholder_df =
     \<lparr>nrows = 1,
      columns = [(''id'', ObjectCol [PyStr ''1'']),
                 (''text'', ObjectCol [PyStr ''Sample chest X-ray report showing normal findings''])]\<rparr>"

text \<open>
  The first \<open>if\<close>/\<open>elif\<close> of \<open>load_dataset\<close>, which settles the \<open>text\<close> column, with the
  exception it can raise.
\<close>

definition resolve_text :: "dataframe \<Rightarrow> error + dataframe" where
  "resolve_text df =
     (if \<not> has_column df ''text'' \<and> has_column df ''report''
      then (case get_column df ''report'' of
              Some c \<Rightarrow> Inr (set_column df ''text'' c) | None \<Rightarrow> Inl KeyError)
      else if \<not> has_column df ''text''
      then (case object_columns df of
              first_col # more_cols \<Rightarrow>
                (case py_max (mean_len_key df) first_col more_cols of
                   Inl e \<Rightarrow> Inl e
                 | Inr longest_col \<Rightarrow>
                     (case get_column df longest_col of
                        Some c \<Rightarrow> Inr (set_column df ''text'' c) | None \<Rightarrow> Inl KeyError))
            | [] \<Rightarrow>
                Inr (set_column df ''text''
                       (ObjectCol (replicate (nrows df) (PyStr ''No report available'')))))
      else Inr df)"

definition resolve_id :: "dataframe \<Rightarrow> dataframe" where
  "resolve_id df =
     (if \<not> has_column df ''id''
      then set_column df ''id'' (ObjectCol (map (\<lambda>i. PyStr (str_nat i)) [0..<nrows df]))
      else df)"

text \<open>
  The body of \<open>FastRAGSystem.load_dataset\<close>. The argument is what \<open>pd.read_csv\<close> gives:
  \<open>None\<close> when it raises. The \<open>except\<close> branch returns the placeholder frame for every
  exception of the \<open>try\<close> block, the one of \<open>pd.read_csv\<close> and the one of the column
  scan alike.
\<close>

definition load_dataset_body :: "dataframe option \<Rightarrow> dataframe" where
  "load_dataset_body csv =
     (case csv of
        None \<Rightarrow> placeholder_df
      | Some df \<Rightarrow>
          (case resolve_text df of
             Inl e \<Rightarrow> placeholder_df
           | Inr df' \<Rightarrow> resolve_id df'))"

text \<open>A frame is well formed when every column has one cell per row.\<close>

definition wf_frame :: "dataframe \<Rightarrow> bool" where
  "wf_frame df = list_all (\<lambda>(name, c). length (tolist c) = nrows df) (columns df)"

definition wf_csv :: "dataframe option \<Rightarrow> bool" where
  "wf_csv csv = (case csv of None \<Rightarrow> True | Some df \<Rightarrow> wf_frame df)"

section \<open>The retrieval engine\<close>

record snapshot_metadata =
  reports :: "pyval list"
  ids :: "pyval list"
  diseases :: "string list"
  dimension :: nat
  total_records :: nat

text \<open>
  A file of the disk: absent, present with a content that cannot be read back, or
  present with the value that was written. \<open>faiss.write_index\<close> with \<open>faiss.read_index\<close>
  and \<open>pickle.dump\<close> with \<open>pickle.load\<close> are taken to give back what was written.
\<close>

datatype 'a artifact = Absent | Corrupt | Stored 'a

text \<open>
  The state of the process: the fields of the one \<open>FastRAGSystem\<close> object
  (\<open>get_rag_system\<close> is memoised, so there is one per process), the two files at
  \<open>index_path\<close> and \<open>metadata_path\<close>, and the memos of \<open>load_faiss_index\<close> and of
  \<open>load_dataset\<close>. \<open>embedding_model\<close> tells whether the model has been loaded.
\<close>

record system =
  faiss_index :: "IndexFlatIP option"
  metadata :: "snapshot_metadata option"
  embedding_model :: bool
  index_file :: "IndexFlatIP artifact"
  metadata_file :: "snapshot_metadata artifact"
  load_cache :: "(IndexFlatIP option \<times> snapshot_metadata option) option"
  dataset_cache :: "dataframe option"

text \<open>The body of \<open>load_faiss_index\<close>: any exception gives \<open>(None, None)\<close>.\<close>

definition read_artifacts :: "system \<Rightarrow> IndexFlatIP option \<times> snapshot_metadata option" where
  "read_artifacts s =
     (case index_file s of
        Stored index \<Rightarrow>
          (case metadata_file s of
             Stored md \<Rightarrow> (Some index, Some md)
           | _ \<Rightarrow> (None, None))
      | _ \<Rightarrow> (None, None))"

text \<open>
  \<open>FastRAGSystem.load_faiss_index\<close> under \<open>st.cache_resource\<close>. Its only parameter,
  \<open>_self\<close>, is left out of the memo key by its leading underscore, so the memo has one
  entry: the first call runs the body and stores what it returns, every later call
  returns the stored pair.
\<close>

definition load_faiss_index ::
  "system \<Rightarrow> (IndexFlatIP option \<times> snapshot_metadata option) \<times> system" where
  "load_faiss_index s =
     (case load_cache s of
        Some r \<Rightarrow> (r, s)
      | None \<Rightarrow> (let r = read_artifacts s in (r, s\<lparr>load_cache := Some r\<rparr>)))"

text \<open>
  \<open>FastRAGSystem.load_dataset\<close> under \<open>st.cache_data\<close>: as for \<open>load_faiss_index\<close>, the
  memo has one entry; the first call reads the file, every later call of the process
  returns the frame of the first one.
\<close>

definition load_dataset :: "system \<Rightarrow> dataframe option \<Rightarrow> dataframe \<times> system" where
  "load_dataset s csv =
     (case dataset_cache s of
        Some df \<Rightarrow> (df, s)
      | None \<Rightarrow> (let df = load_dataset_body csv in (df, s\<lparr>dataset_cache := Some df\<rparr>)))"

definition wf_system :: "system \<Rightarrow> bool" where
  "wf_system s = (case dataset_cache s of None \<Rightarrow> True | Some df \<Rightarrow> wf_frame df)"

text \<open>\<open>series.fillna('')\<close>.\<close>

fun fillna :: "pyval \<Rightarrow> pyval" where
  "fillna PyNaN = PyStr []"
| "fillna PyNone = PyStr []"
| "fillna v = v"

text \<open>
  \<open>embedding_model.encode(batch)\<close>: one vector per text, computed by the model \<open>enc\<close>; an
  item that is not a string is refused.
\<close>

fun encode :: "(string \<Rightarrow> vec) \<Rightarrow> pyval list \<Rightarrow> error + vec list" where
  "encode enc [] = Inr []"
| "encode enc (PyStr t # rest) =
     (case encode enc rest of Inl e \<Rightarrow> Inl e | Inr vs \<Rightarrow> Inr (enc t # vs))"
| "encode enc (v # rest) = Inl TypeError"

text \<open>
  The batch loop of \<open>build_faiss_index\<close>, from row \<open>i\<close> on:
  \<open>for i in range(0, len(df), batch_size)\<close> with \<open>batch_size = 100\<close>.
\<close>

function embed_batches ::
  "(string \<Rightarrow> vec) \<Rightarrow> pyval list \<Rightarrow> nat \<Rightarrow> nat \<Rightarrow> error + vec list" where
  "embed_batches enc texts n i =
     (if i < n
      then (let batch = map fillna (py_slice texts (int i) (int i + 100))
            in case encode enc batch of
                 Inl e \<Rightarrow> Inl e
               | Inr batch_embeddings \<Rightarrow>
                   (case embed_batches enc texts n (i + 100) of
                      Inl e \<Rightarrow> Inl e
                    | Inr later \<Rightarrow> Inr (batch_embeddings @ later)))
      else Inr [])"
  by pat_completeness auto
termination
  by (relation "measure (\<lambda>(enc, texts, n, i). n - i)") auto

declare embed_batches.simps [simp del]

text \<open>
  \<open>np.array(embeddings).astype('float32')\<close> and \<open>embeddings.shape[1]\<close>: rows of unequal
  length do not make a matrix, and an empty array has no second axis.
\<close>

definition shape1 :: "vec list \<Rightarrow> error + nat" where
  "shape1 embeddings =
     (case embeddings of
        [] \<Rightarrow> Inl IndexError
      | row # others \<Rightarrow>
          if list_ex (\<lambda>r. length r \<noteq> length row) others then Inl ValueError
          else Inr (length row))"

text \<open>
  The build path of \<open>build_faiss_index\<close>, from the loaded frame to the index and the
  metadata dict.
\<close>

definition build_snapshot ::
  "(string \<Rightarrow> vec) \<Rightarrow> dataframe \<Rightarrow> error + (IndexFlatIP \<times> snapshot_metadata)" where
  "build_snapshot enc df =
     (case (get_column df ''text'', get_column df ''id'') of
        (Some text_col, Some id_col) \<Rightarrow>
          (case embed_batches enc (tolist text_col) (nrows df) 0 of
             Inl e \<Rightarrow> Inl e
           | Inr embeddings \<Rightarrow>
               (case shape1 embeddings of
                  Inl e \<Rightarrow> Inl e
                | Inr ndim \<Rightarrow>
                    (case index_add (new_IndexFlatIP ndim) (normalize_L2 embeddings) of
                       Inl e \<Rightarrow> Inl e
                     | Inr index \<Rightarrow>
                         Inr (index,
                              \<lparr>reports = tolist text_col,
                               ids = tolist id_col,
                               diseases = map extract_disease_name (tolist text_col),
                               dimension = ndim,
                               total_records = nrows df\<rparr>))))
      | _ \<Rightarrow> Inl KeyError)"

text \<open>
  \<open>FastRAGSystem.build_faiss_index\<close>. The result is what the call returns or raises,
  with the state it leaves.
\<close>

definition build_faiss_index ::
  "(string \<Rightarrow> vec) \<Rightarrow> dataframe option \<Rightarrow> system \<Rightarrow> bool \<Rightarrow>
     (error + (IndexFlatIP option \<times> snapshot_metadata option)) \<times> system" where
  "build_faiss_index enc csv s force_rebuild =
     (if \<not> force_rebuild \<and> index_file s \<noteq> Absent \<and> metadata_file s \<noteq> Absent
      then (let (r, s') = load_faiss_index s in (Inr r, s'))
      else (let (df, s0) = load_dataset s csv;
                s1 = s0\<lparr>embedding_model := True\<rparr>
            in case build_snapshot enc df of
                 Inl e \<Rightarrow> (Inl e, s1)
               | Inr (index, md) \<Rightarrow>
                   (Inr (Some index, Some md),
                    s1\<lparr>index_file := Stored index, metadata_file := Stored md,
                       faiss_index := Some index, metadata := Some md\<rparr>)))"

record search_result =
  report :: pyval
  ident :: pyval
  disease :: string
  similarity_score :: real

text \<open>
  The \<open>for score, idx in zip(scores[0], indices[0])\<close> loop of \<open>search_similar_reports\<close>.
  \<open>looked_up\<close> lists the positions that pass the \<open>if\<close> and so index the metadata
  lists; \<open>collect_results\<close> builds the entries.
\<close>

definition looked_up :: "snapshot_metadata \<Rightarrow> (real \<times> int) list \<Rightarrow> int list" where
  "looked_up md hits = filter (\<lambda>idx. idx < int (length (reports md))) (map snd hits)"

fun collect_results :: "snapshot_metadata \<Rightarrow> (real \<times> int) list \<Rightarrow> error + search_result list" where
  "collect_results md [] = Inr []"
| "collect_results md ((score, idx) # rest) =
     (if idx < int (length (reports md))
      then (case (py_index (reports md) idx, py_index (ids md) idx, py_index (diseases md) idx) of
              (Inr r, Inr i, Inr d) \<Rightarrow>
                (case collect_results md rest of
                   Inl e \<Rightarrow> Inl e
                 | Inr results \<Rightarrow>
                     Inr (\<lparr>report = r, ident = i, disease = d, similarity_score = score\<rparr> # results))
            | _ \<Rightarrow> Inl IndexError)
      else collect_results md rest)"

text \<open>What \<open>index.search\<close> returns for the one query of \<open>search_similar_reports\<close>.\<close>

definition query_hits ::
  "(string \<Rightarrow> vec) \<Rightarrow> IndexFlatIP \<Rightarrow> string \<Rightarrow> int \<Rightarrow> error + (real \<times> int) list" where
  "query_hits enc index query_text k =
     (let query_embedding = normalize_L2 [enc query_text]
      in case index_search index query_embedding k of
           Inl e \<Rightarrow> Inl e
         | Inr (scores, indices) \<Rightarrow> Inr (zip (scores ! 0) (indices ! 0)))"

text \<open>
  \<open>FastRAGSystem.search_similar_reports\<close>: the returned list, or the exception. (The
  call also loads the embedding model when it is not loaded yet; nothing else of the
  state changes.)
\<close>

definition search_similar_reports ::
  "(string \<Rightarrow> vec) \<Rightarrow> system \<Rightarrow> string \<Rightarrow> int \<Rightarrow> error + search_result list" where
  "search_similar_reports enc s query_text k =
     (case (faiss_index s, metadata s) of
        (Some index, Some md) \<Rightarrow>
          (case query_hits enc index query_text k of
             Inl e \<Rightarrow> Inl e
           | Inr hits \<Rightarrow> collect_results md hits)
      | _ \<Rightarrow> Inr [])"

text \<open>
  The start of \<open>main\<close>, run at every start and rerun of the script: the state it leaves,
  or the exception of the build.
\<close>

definition main_startup :: "(string \<Rightarrow> vec) \<Rightarrow> dataframe option \<Rightarrow> system \<Rightarrow> error + system" where
  "main_startup enc csv s =
     (if index_file s = Absent
      then (case build_faiss_index enc csv s False of
              (Inl e, s') \<Rightarrow> Inl e
            | (Inr r, s') \<Rightarrow> Inr s')
      else (let ((index, md), s') = load_faiss_index s
            in Inr (s'\<lparr>faiss_index := index, metadata := md, embedding_model := True\<rparr>)))"

text \<open>The \<open>Rebuild FAISS Index\<close> button: a forced build, then \<open>st.rerun()\<close>.\<close>

definition rebuild_button :: "(string \<Rightarrow> vec) \<Rightarrow> dataframe option \<Rightarrow> system \<Rightarrow> error + system" where
  "rebuild_button enc csv s =
     (case build_faiss_index enc csv s True of
        (Inl e, s') \<Rightarrow> Inl e
      | (Inr r, s') \<Rightarrow> main_startup enc csv s')"

text \<open>A fresh process: nothing loaded, nothing memoised.\<close>

definition fresh_process :: "IndexFlatIP artifact \<Rightarrow> snapshot_metadata artifact \<Rightarrow> system" where
  "fresh_process fi fm =
     \<lparr>faiss_index = None, metadata = None, embedding_model = False,
      index_file = fi, metadata_file = fm, load_cache = None, dataset_cache = None\<rparr>"

definition ready :: "system \<Rightarrow> bool" where
  "ready s = (faiss_index s \<noteq> None \<and> metadata s \<noteq> None)"


section \<open>Inputs used in the examples\<close>




definition unit_model :: "string \<Rightarrow> vec" where
  "unit_model t = [1, 0]"

definition sample_report :: string where
  "sample_report = ''Sample chest X-ray report showing normal findings''"

definition single_record_index :: IndexFlatIP where
  "single_record_index = \<lparr>index_d = 2, index_xb = [[1, 0]]\<rparr>"

definition single_record_metadata :: snapshot_metadata where
  "single_record_metadata =
     \<lparr>reports = [PyStr sample_report], ids = [PyStr ''1''],
      diseases = [''Radiographic Abnormality''], dimension = 2, total_records = 1\<rparr>"

definition single_record_state :: system where
  "single_record_state =
     \<lparr>faiss_index = Some single_record_index, metadata = Some single_record_metadata,
      embedding_model = True,
      index_file = Stored single_record_index, metadata_file = Stored single_record_metadata,
      load_cache = None, dataset_cache = Some placeholder_df\<rparr>"

definition sample_hit :: "real \<Rightarrow> search_result" where
  "sample_hit score =
     \<lparr>report = PyStr sample_report, ident = PyStr ''1'',
      disease = ''Radiographic Abnormality'', similarity_score = score\<rparr>"

definition padded_hits :: "(real \<times> int) list" where
  "padded_hits =
     [(1, 0), (- FLT_MAX, - 1), (- FLT_MAX, - 1), (- FLT_MAX, - 1), (- FLT_MAX, - 1)]"

definition half_loaded_state :: system where
  "half_loaded_state =
     \<lparr>faiss_index = None, metadata = None, embedding_model = True,
      index_file = Stored single_record_index, metadata_file = Absent,
      load_cache = Some (None, None), dataset_cache = None\<rparr>"

definition old_index :: IndexFlatIP where
  "old_index = \<lparr>index_d = 2, index_xb = [[0, 1]]\<rparr>"

definition old_metadata :: snapshot_metadata where
  "old_metadata =
     \<lparr>reports = [PyStr ''old report''], ids = [PyStr ''7''],
      diseases = [''Radiographic Abnormality''], dimension = 2, total_records = 1\<rparr>"

definition old_loaded_state :: system where
  "old_loaded_state =
     \<lparr>faiss_index = Some old_index, metadata = Some old_metadata, embedding_model = True,
      index_file = Stored old_index, metadata_file = Stored old_metadata,
      load_cache = Some (Some old_index, Some old_metadata), dataset_cache = None\<rparr>"

definition rebuilt_state :: system where
  "rebuilt_state =
     \<lparr>faiss_index = Some single_record_index, metadata = Some single_record_metadata,
      embedding_model = True,
      index_file = Stored single_record_index, metadata_file = Stored single_record_metadata,
      load_cache = Some (Some old_index, Some old_metadata),
      dataset_cache = Some placeholder_df\<rparr>"

definition stale_state :: system where
  "stale_state =
     \<lparr>faiss_index = Some old_index, metadata = Some old_metadata, embedding_model = True,
      index_file = Stored single_record_index, metadata_file = Stored single_record_metadata,
      load_cache = Some (Some old_index, Some old_metadata),
      dataset_cache = Some placeholder_df\<rparr>"

definition restarted_state :: system where
  "restarted_state =
     \<lparr>faiss_index = Some single_record_index, metadata = Some single_record_metadata,
      embedding_model = True,
      index_file = Stored single_record_index, metadata_file = Stored single_record_metadata,
      load_cache = Some (Some single_record_index, Some single_record_metadata),
      dataset_cache = None\<rparr>"

definition old_hit :: "real \<Rightarrow> search_result" where
  "old_hit score =
     \<lparr>report = PyStr ''old report'', ident = PyStr ''7'',
      disease = ''Radiographic Abnormality'', similarity_score = score\<rparr>"

definition frame_with_text :: dataframe where
  "frame_with_text =
     \<lparr>nrows = 1,
      columns = [(''report'', ObjectCol [PyStr ''long report text'']),
                 (''text'', ObjectCol [PyStr ''short''])]\<rparr>"

definition frame_with_report :: dataframe where
  "frame_with_report =
     \<lparr>nrows = 1,
      columns = [(''notes'', ObjectCol [PyStr ''some longer notes'']),
                 (''report'', ObjectCol [PyStr ''clear''])]\<rparr>"

definition frame_with_notes :: dataframe where
  "frame_with_notes =
     \<lparr>nrows = 2,
      columns = [(''age'', OtherCol [PyInt 61, PyInt 47]),
                 (''view'', ObjectCol [PyStr ''PA'', PyStr ''AP'']),
                 (''findings'', ObjectCol [PyStr ''no acute disease'', PyNaN]),
                 (''impression'', ObjectCol [PyStr ''normal'', PyStr ''clear lungs''])]\<rparr>"

definition frame_numeric :: dataframe where
  "frame_numeric = \<lparr>nrows = 2, columns = [(''age'', OtherCol [PyInt 61, PyInt 47])]\<rparr>"

text \<open>
  The frame of the file \<open>age,abnormal\<close> / \<open>61,True\<close> / \<open>47,\<close>: the second column holds a
  boolean and a missing cell, and is of dtype \<open>object\<close>. The same frame with a column of
  notes before it.
\<close>

definition frame_with_flag :: dataframe where
  "frame_with_flag =
     \<lparr>nrows = 2,
      columns = [(''age'', OtherCol [PyInt 61, PyInt 47]),
                 (''abnormal'', ObjectCol [PyBool True, PyNaN])]\<rparr>"

definition frame_with_notes_and_flag :: dataframe where
  "frame_with_notes_and_flag =
     \<lparr>nrows = 2,
      columns = [(''notes'', ObjectCol [PyStr ''right lower lobe pneumonia'', PyStr ''clear lungs'']),
                 (''abnormal'', ObjectCol [PyBool True, PyNaN])]\<rparr>"

section \<open>Strings\<close>

lemma str_find_lower_bound: "- 1 \<le> str_find s sub"
  by (induction s) (auto simp: Let_def)

lemma str_in_iff_find: "str_in sub s \<longleftrightarrow> 0 \<le> str_find s sub"
proof (induction s)
  case Nil
  then show ?case by simp
next
  case (Cons c cs)
  have "- 1 \<le> str_find cs sub" by (rule str_find_lower_bound)
  with Cons show ?case by (auto simp: Let_def)
qed

lemma str_in_sublist: "str_in sub s \<longleftrightarrow> sublist sub s"
  by (induction s) (auto simp: sublist_Cons_right)



section \<open>The classifier\<close>

lemma scan_conditions_find:
  "scan_conditions tbl r =
     map_option snd (find (\<lambda>(k, n). str_in k r \<and> \<not> is_negated r k) tbl)"
proof (induction tbl)
  case Nil
  show ?case by simp
next
  case (Cons e tbl)
  obtain k n where e: "e = (k, n)" by (cases e)
  show ?case unfolding e using Cons.IH by simp
qed









lemma extract_disease_name_find:
  "extract_disease_name v =
     (case find (\<lambda>(k, n). str_in k (lower (py_str v)) \<and> \<not> is_negated (lower (py_str v)) k)
             positive_conditions of
        Some (k, n) \<Rightarrow> n
      | None \<Rightarrow>
          if normal_findings (lower (py_str v)) then ''Normal Findings''
          else ''Radiographic Abnormality'')"
  unfolding extract_disease_name_def Let_def scan_conditions_find
  by (simp split: option.splits prod.splits)










section \<open>The batch loop\<close>

lemma py_slice_batch: "py_slice s (int i) (int i + 100) = take 100 (drop i s)"
proof (cases "i < length s")
  case True
  then have "min (i + 100) (length s) - i = min 100 (length s - i)" by auto
  with True show ?thesis
    by (simp add: py_slice_def slice_bound_def Let_def nat_add_distrib min_def)
next
  case False
  then show ?thesis by (simp add: py_slice_def slice_bound_def Let_def)
qed

lemma encode_append:
  "encode enc (xs @ ys) =
     (case encode enc xs of
        Inl e \<Rightarrow> Inl TypeError
      | Inr vs \<Rightarrow> (case encode enc ys of Inl e \<Rightarrow> Inl TypeError | Inr ws \<Rightarrow> Inr (vs @ ws)))"
proof (induction enc xs rule: encode.induct)
  case (1 enc)
  have "encode enc ys = Inl e \<Longrightarrow> e = TypeError" for e
    by (induction enc ys rule: encode.induct) (auto split: sum.splits)
  then show ?case by (auto split: sum.splits)
qed (auto split: sum.splits)

lemma encode_error: "encode enc xs = Inl e \<Longrightarrow> e = TypeError"
  by (induction enc xs rule: encode.induct) (auto split: sum.splits)

lemma encode_length: "encode enc xs = Inr vs \<Longrightarrow> length vs = length xs"
  by (induction enc xs arbitrary: vs rule: encode.induct) (auto split: sum.splits)

lemma embed_batches_drop:
  "length texts = n \<Longrightarrow> embed_batches enc texts n i = encode enc (map fillna (drop i texts))"
proof (induction enc texts n i rule: embed_batches.induct)
  case (1 enc texts n i)
  show ?case
  proof (cases "i < n")
    case False
    with 1(2) show ?thesis by (simp add: embed_batches.simps)
  next
    case True
    have split: "drop i texts = take 100 (drop i texts) @ drop (i + 100) texts"
      by (metis append_take_drop_id drop_drop add.commute)
    have e: "encode enc (map fillna (drop i texts)) =
        (case encode enc (map fillna (take 100 (drop i texts))) of
           Inl e \<Rightarrow> Inl TypeError
         | Inr vs \<Rightarrow> (case encode enc (map fillna (drop (i + 100) texts)) of
                        Inl e \<Rightarrow> Inl TypeError | Inr ws \<Rightarrow> Inr (vs @ ws)))"
    proof -
      have "encode enc (map fillna (drop i texts)) =
          encode enc (map fillna (take 100 (drop i texts)) @ map fillna (drop (i + 100) texts))"
        using split by (metis map_append)
      then show ?thesis by (simp only: encode_append)
    qed
    show ?thesis
    proof (cases "encode enc (map fillna (take 100 (drop i texts)))")
      case (Inl err)
      then have "err = TypeError" by (rule encode_error)
      with Inl True e show ?thesis
        by (subst embed_batches.simps) (simp add: py_slice_batch Let_def)
    next
      case (Inr vs)
      have ih: "embed_batches enc texts n (i + 100) = encode enc (map fillna (drop (i + 100) texts))"
        using 1(1) [OF True refl _ 1(2)] Inr by (simp add: py_slice_batch)
      show ?thesis
      proof (cases "encode enc (map fillna (drop (i + 100) texts))")
        case (Inl err)
        then have "err = TypeError" by (rule encode_error)
        with Inl Inr True e ih show ?thesis
          by (subst embed_batches.simps) (simp add: py_slice_batch Let_def)
      next
        case (Inr ws)
        with \<open>encode enc (map fillna (take 100 (drop i texts))) = Inr vs\<close> True e ih show ?thesis
          by (subst embed_batches.simps) (simp add: py_slice_batch Let_def)
      qed
    qed
  qed
qed

lemma embed_batches_all:
  "length texts = n \<Longrightarrow> embed_batches enc texts n 0 = encode enc (map fillna texts)"
  using embed_batches_drop [of texts n enc 0] by simp

section \<open>Data frames\<close>

lemma has_column_get: "has_column df name \<longleftrightarrow> get_column df name \<noteq> None"
  by (simp add: has_column_def get_column_def map_of_eq_None_iff)

lemma map_of_replace:
  "name \<in> fst ` set xs \<Longrightarrow>
     map_of (map (\<lambda>(n, c). if n = name then (n, col) else (n, c)) xs) name = Some col"
  by (induction xs) auto

lemma map_of_replace_other:
  "m \<noteq> name \<Longrightarrow>
     map_of (map (\<lambda>(n, c). if n = name then (n, col) else (n, c)) xs) m = map_of xs m"
  by (induction xs) auto

lemma get_set_column: "get_column (set_column df name col) name = Some col"
proof (cases "has_column df name")
  case True
  then show ?thesis
    by (simp add: set_column_def get_column_def has_column_def map_of_replace)
next
  case False
  then have "map_of (columns df) name = None"
    by (simp add: has_column_def map_of_eq_None_iff)
  with False show ?thesis
    by (simp add: set_column_def get_column_def map_add_def)
qed

lemma get_set_column_other:
  "m \<noteq> name \<Longrightarrow> get_column (set_column df name col) m = get_column df m"
  by (simp add: set_column_def get_column_def map_of_replace_other map_add_def
           split: option.splits)

lemma nrows_set_column: "nrows (set_column df name col) = nrows df"
  by (simp add: set_column_def)

lemma wf_set_column:
  assumes "wf_frame df" and "length (tolist col) = nrows df"
  shows "wf_frame (set_column df name col)"
  using assms
  by (auto simp: wf_frame_def set_column_def list_all_iff split: if_splits)

lemma wf_get_column:
  "wf_frame df \<Longrightarrow> get_column df name = Some c \<Longrightarrow> length (tolist c) = nrows df"
  by (auto simp: wf_frame_def get_column_def list_all_iff dest!: map_of_SomeD)

lemma nrows_resolve_id: "nrows (resolve_id df) = nrows df"
  by (simp add: resolve_id_def nrows_set_column)

lemma wf_resolve_id: "wf_frame df \<Longrightarrow> wf_frame (resolve_id df)"
  by (auto simp: resolve_id_def wf_set_column)

lemma wf_placeholder_df: "wf_frame placeholder_df"
  by (simp add: wf_frame_def placeholder_df_def)

lemma object_columns_has:
  "name \<in> set (object_columns df) \<Longrightarrow> has_column df name"
  by (auto simp: object_columns_def has_column_def)

lemma resolve_id_columns:
  "has_column (resolve_id df) ''id''"
  "get_column (resolve_id df) ''text'' = get_column df ''text''"
  by (simp_all add: resolve_id_def has_column_get get_set_column get_set_column_other)

section \<open>The \<open>max\<close> loop\<close>

lemma nan_gt_Some: "nan_gt a (Some m) \<longleftrightarrow> (\<exists>v. a = Some v \<and> m < v)"
  by (cases a) auto

lemma nan_gt_None: "\<not> nan_gt a None"
  by (cases a) auto

lemma max_loop_mem: "max_loop key b bv xs = Inr m \<Longrightarrow> m \<in> insert b (set xs)"
proof (induction xs arbitrary: b bv)
  case Nil
  then show ?case by simp
next
  case (Cons x xs)
  from Cons.prems obtain val where val: "key x = Inr val"
    by (cases "key x") auto
  show ?case
  proof (cases "nan_gt val bv")
    case True
    with Cons.prems val have "max_loop key x val xs = Inr m" by simp
    from Cons.IH [OF this] show ?thesis by auto
  next
    case False
    with Cons.prems val have "max_loop key b bv xs = Inr m" by simp
    from Cons.IH [OF this] show ?thesis by auto
  qed
qed

lemma max_loop_keys: "max_loop key b bv xs = Inr m \<Longrightarrow> x \<in> set xs \<Longrightarrow> \<exists>v. key x = Inr v"
proof (induction xs arbitrary: b bv)
  case Nil
  then show ?case by simp
next
  case (Cons y ys)
  from Cons.prems(1) obtain val where val: "key y = Inr val"
    by (cases "key y") auto
  show ?case
  proof (cases "x = y")
    case True
    with val show ?thesis by blast
  next
    case False
    with Cons.prems(2) have x: "x \<in> set ys" by simp
    show ?thesis
    proof (cases "nan_gt val bv")
      case True
      with Cons.prems(1) val have "max_loop key y val ys = Inr m" by simp
      from Cons.IH [OF this x] show ?thesis .
    next
      case False
      with Cons.prems(1) val have "max_loop key b bv ys = Inr m" by simp
      from Cons.IH [OF this x] show ?thesis .
    qed
  qed
qed

lemma max_loop_None: "max_loop key b None xs = Inr m \<Longrightarrow> m = b"
proof (induction xs)
  case Nil
  then show ?case by simp
next
  case (Cons x xs)
  from Cons.prems obtain val where val: "key x = Inr val"
    by (cases "key x") auto
  with Cons.prems have "max_loop key b None xs = Inr m"
    by (simp add: nan_gt_None)
  then show ?case by (rule Cons.IH)
qed

lemma max_loop_Some:
  "max_loop key b (Some v) xs = Inr m \<Longrightarrow> key b = Inr (Some v) \<Longrightarrow>
     \<exists>u. key m = Inr (Some u) \<and> v \<le> u
        \<and> (\<forall>x \<in> set xs. \<forall>w. key x = Inr (Some w) \<longrightarrow> w \<le> u)"
proof (induction xs arbitrary: b v)
  case Nil
  then show ?case by simp
next
  case (Cons y ys)
  from Cons.prems(1) obtain val where val: "key y = Inr val"
    by (cases "key y") auto
  show ?case
  proof (cases "nan_gt val (Some v)")
    case True
    then obtain w where w: "val = Some w" "v < w"
      by (auto simp: nan_gt_Some)
    from Cons.prems(1) val True w have run: "max_loop key y (Some w) ys = Inr m" by simp
    from val w have ky: "key y = Inr (Some w)" by simp
    from Cons.IH [OF run ky] obtain u where
      u: "key m = Inr (Some u)" "w \<le> u"
         "\<forall>x \<in> set ys. \<forall>t. key x = Inr (Some t) \<longrightarrow> t \<le> u"
      by blast
    have "v \<le> u" using w(2) u(2) by simp
    moreover have "\<forall>x \<in> set (y # ys). \<forall>t. key x = Inr (Some t) \<longrightarrow> t \<le> u"
      using u(2,3) ky by auto
    ultimately show ?thesis using u(1) by blast
  next
    case False
    with Cons.prems(1) val have run: "max_loop key b (Some v) ys = Inr m" by simp
    from Cons.IH [OF run Cons.prems(2)] obtain u where
      u: "key m = Inr (Some u)" "v \<le> u"
         "\<forall>x \<in> set ys. \<forall>t. key x = Inr (Some t) \<longrightarrow> t \<le> u"
      by blast
    have y: "\<forall>t. key y = Inr (Some t) \<longrightarrow> t \<le> u"
    proof (intro allI impI)
      fix t assume "key y = Inr (Some t)"
      with val have "val = Some t" by simp
      with False have "t \<le> v" by (simp add: nan_gt_Some)
      with u(2) show "t \<le> u" by simp
    qed
    have "\<forall>x \<in> set (y # ys). \<forall>t. key x = Inr (Some t) \<longrightarrow> t \<le> u"
      using y u(3) by simp
    then show ?thesis using u(1,2) by blast
  qed
qed

lemma max_loop_succeeds:
  "\<forall>x \<in> set xs. \<exists>v. key x = Inr v \<Longrightarrow> \<exists>m. max_loop key b bv xs = Inr m"
proof (induction xs arbitrary: b bv)
  case Nil
  show ?case by simp
next
  case (Cons y ys)
  from Cons.prems obtain val where val: "key y = Inr val" by auto
  from Cons.prems have rest: "\<forall>x \<in> set ys. \<exists>v. key x = Inr v" by simp
  show ?case
  proof (cases "nan_gt val bv")
    case True
    with val Cons.IH [OF rest, of y val] show ?thesis by simp
  next
    case False
    with val Cons.IH [OF rest, of b bv] show ?thesis by simp
  qed
qed

lemma max_loop_raises:
  "x \<in> set xs \<Longrightarrow> key x = Inl e \<Longrightarrow> \<exists>e'. max_loop key b bv xs = Inl e'"
proof (induction xs arbitrary: b bv)
  case Nil
  then show ?case by simp
next
  case (Cons y ys)
  show ?case
  proof (cases "key y")
    case (Inl e')
    then show ?thesis by simp
  next
    case (Inr val)
    with Cons.prems have x: "x \<in> set ys" by auto
    show ?thesis
    proof (cases "nan_gt val bv")
      case True
      with Inr Cons.IH [OF x Cons.prems(2), of y val] show ?thesis by simp
    next
      case False
      with Inr Cons.IH [OF x Cons.prems(2), of b bv] show ?thesis by simp
    qed
  qed
qed

lemma py_max_mem: "py_max key first_item rest = Inr m \<Longrightarrow> m \<in> set (first_item # rest)"
proof -
  assume a: "py_max key first_item rest = Inr m"
  then obtain val where "key first_item = Inr val" "max_loop key first_item val rest = Inr m"
    by (cases "key first_item") (auto simp: py_max_def)
  from max_loop_mem [OF this(2)] show ?thesis by simp
qed

lemma py_max_raises:
  assumes "x \<in> set (first_item # rest)" and "key x = Inl e"
  shows "\<exists>e'. py_max key first_item rest = Inl e'"
proof (cases "key first_item")
  case (Inl e')
  then show ?thesis by (simp add: py_max_def)
next
  case (Inr val)
  with assms have "x \<in> set rest" by auto
  from max_loop_raises [of x rest key e first_item val, OF this assms(2)] Inr show ?thesis
    by (simp add: py_max_def)
qed

lemma py_max_succeeds:
  assumes "\<forall>x \<in> set (first_item # rest). \<exists>v. key x = Inr v"
  shows "\<exists>m. py_max key first_item rest = Inr m"
proof -
  from assms obtain val where val: "key first_item = Inr val" by auto
  from assms have "\<forall>x \<in> set rest. \<exists>v. key x = Inr v" by simp
  from max_loop_succeeds [OF this, of first_item val] val show ?thesis
    by (simp add: py_max_def)
qed

lemma py_max_greatest:
  assumes "py_max key first_item rest = Inr m" and "x \<in> set (first_item # rest)"
  shows "\<exists>xv mv. key x = Inr xv \<and> key m = Inr mv \<and> \<not> nan_gt xv mv"
proof -
  from assms(1) obtain val where
    val: "key first_item = Inr val" and run: "max_loop key first_item val rest = Inr m"
    by (cases "key first_item") (auto simp: py_max_def)
  have kx: "\<exists>xv. key x = Inr xv"
  proof (cases "x = first_item")
    case True
    with val show ?thesis by simp
  next
    case False
    with assms(2) have "x \<in> set rest" by simp
    from max_loop_keys [OF run this] show ?thesis .
  qed
  then obtain xv where xv: "key x = Inr xv" by blast
  show ?thesis
  proof (cases val)
    case None
    with run have "m = first_item" by (simp add: max_loop_None)
    with val None xv show ?thesis by (simp add: nan_gt_None)
  next
    case (Some v)
    from run val Some have
      "\<exists>u. key m = Inr (Some u) \<and> v \<le> u
          \<and> (\<forall>x \<in> set rest. \<forall>w. key x = Inr (Some w) \<longrightarrow> w \<le> u)"
      by (intro max_loop_Some) simp_all
    then obtain u where
      u: "key m = Inr (Some u)" "v \<le> u"
         "\<forall>x \<in> set rest. \<forall>w. key x = Inr (Some w) \<longrightarrow> w \<le> u"
      by blast
    have "\<not> nan_gt xv (Some u)"
    proof (cases xv)
      case None
      then show ?thesis by simp
    next
      case (Some w)
      have "w \<le> u"
      proof (cases "x = first_item")
        case True
        with xv Some val \<open>val = Some v\<close> u(2) show ?thesis by simp
      next
        case False
        with assms(2) have "x \<in> set rest" by simp
        with u(3) xv Some show ?thesis by blast
      qed
      with Some show ?thesis by simp
    qed
    with xv u(1) show ?thesis by blast
  qed
qed

section \<open>The loaded frame\<close>

lemma resolve_text_nrows: "resolve_text df = Inr df' \<Longrightarrow> nrows df' = nrows df"
  by (auto simp: resolve_text_def nrows_set_column
           split: if_splits option.splits list.splits sum.splits)

lemma resolve_text_wf: "wf_frame df \<Longrightarrow> resolve_text df = Inr df' \<Longrightarrow> wf_frame df'"
  by (auto simp: resolve_text_def wf_set_column wf_get_column
           split: if_splits option.splits list.splits sum.splits)

lemma resolve_text_has_text: "resolve_text df = Inr df' \<Longrightarrow> has_column df' ''text''"
  by (auto simp: resolve_text_def has_column_get get_set_column
           split: if_splits option.splits list.splits sum.splits)

lemma wf_load_dataset_body: "wf_csv csv \<Longrightarrow> wf_frame (load_dataset_body csv)"
  by (auto simp: wf_csv_def load_dataset_body_def wf_placeholder_df resolve_text_wf wf_resolve_id
           split: option.splits sum.splits)

lemma wf_load_dataset:
  "wf_csv csv \<Longrightarrow> wf_system s \<Longrightarrow> wf_frame (fst (load_dataset s csv))"
  by (auto simp: load_dataset_def wf_system_def wf_load_dataset_body Let_def
           split: option.splits)

lemma load_dataset_state:
  "faiss_index (snd (load_dataset s csv)) = faiss_index s"
  "metadata (snd (load_dataset s csv)) = metadata s"
  "embedding_model (snd (load_dataset s csv)) = embedding_model s"
  "index_file (snd (load_dataset s csv)) = index_file s"
  "metadata_file (snd (load_dataset s csv)) = metadata_file s"
  "load_cache (snd (load_dataset s csv)) = load_cache s"
  by (simp_all add: load_dataset_def Let_def split: option.splits)

lemma load_dataset_first_call:
  "dataset_cache s = None \<Longrightarrow>
     load_dataset s csv
       = (load_dataset_body csv, s\<lparr>dataset_cache := Some (load_dataset_body csv)\<rparr>)"
  by (simp add: load_dataset_def Let_def)

lemma load_dataset_body_columns:
  "\<exists>text_col id_col.
     get_column (load_dataset_body csv) ''text'' = Some text_col
     \<and> get_column (load_dataset_body csv) ''id'' = Some id_col"
proof -
  have p: "\<exists>text_col id_col.
     get_column placeholder_df ''text'' = Some text_col
     \<and> get_column placeholder_df ''id'' = Some id_col"
    by (simp add: placeholder_df_def get_column_def)
  have r: "\<exists>text_col id_col.
     get_column (resolve_id df') ''text'' = Some text_col
     \<and> get_column (resolve_id df') ''id'' = Some id_col"
    if "resolve_text df = Inr df'" for df df'
  proof -
    have "get_column (resolve_id df') ''text'' \<noteq> None"
      using resolve_text_has_text [OF that] by (simp add: resolve_id_columns has_column_get)
    moreover have "get_column (resolve_id df') ''id'' \<noteq> None"
      using resolve_id_columns(1) [of df'] by (simp add: has_column_get)
    ultimately show ?thesis by auto
  qed
  show ?thesis
  proof (cases csv)
    case None
    with p show ?thesis by (simp add: load_dataset_body_def)
  next
    case (Some df)
    show ?thesis
    proof (cases "resolve_text df")
      case (Inl e)
      with Some p show ?thesis by (simp add: load_dataset_body_def)
    next
      case (Inr df')
      with Some r [OF Inr] show ?thesis by (simp add: load_dataset_body_def)
    qed
  qed
qed

section \<open>Normalisation and the build path\<close>

text \<open>
  The facts on norms are facts of the arithmetic of the real numbers; the 32-bit floats of
  the library round, overflow and underflow, and satisfy them only approximately and only
  in range.
\<close>

lemma inner_product_scale:
  "inner_product (map (\<lambda>x. x * c) v) (map (\<lambda>x. x * c) w) = c * c * inner_product v w"
proof (induction v arbitrary: w)
  case Nil
  show ?case by (simp add: inner_product_def)
next
  case (Cons a v)
  show ?case
  proof (cases w)
    case Nil
    then show ?thesis by (simp add: inner_product_def)
  next
    case (Cons b w')
    with Cons.IH [of w'] show ?thesis
      by (simp add: inner_product_def algebra_simps)
  qed
qed

lemma norm_L2sqr_nonneg: "0 \<le> norm_L2sqr v"
  by (induction v) (simp_all add: norm_L2sqr_def inner_product_def)

lemma norm_L2sqr_Cons: "norm_L2sqr (a # v) = a * a + norm_L2sqr v"
  by (simp add: norm_L2sqr_def inner_product_def)

lemma norm_L2sqr_zero_iff: "norm_L2sqr v = 0 \<longleftrightarrow> (\<forall>x \<in> set v. x = 0)"
proof (induction v)
  case Nil
  show ?case by (simp add: norm_L2sqr_def inner_product_def)
next
  case (Cons a v)
  have "0 \<le> a * a" by simp
  moreover have "0 \<le> norm_L2sqr v" by (rule norm_L2sqr_nonneg)
  ultimately have "a * a + norm_L2sqr v = 0 \<longleftrightarrow> a * a = 0 \<and> norm_L2sqr v = 0"
    by (rule add_nonneg_eq_0_iff)
  with Cons show ?case by (simp add: norm_L2sqr_Cons)
qed

lemma length_renorm_row: "length (renorm_row v) = length v"
  by (simp add: renorm_row_def Let_def)

lemma renorm_row_unit:
  assumes "\<not> (\<forall>x \<in> set v. x = 0)"
  shows "norm_L2sqr (renorm_row v) = 1"
proof -
  have pos: "0 < norm_L2sqr v"
    using assms norm_L2sqr_nonneg [of v] norm_L2sqr_zero_iff [of v] by force
  have "renorm_row v = map (\<lambda>x. x * (1 / sqrt (norm_L2sqr v))) v"
    using pos by (simp only: renorm_row_def Let_def if_True)
  then have "norm_L2sqr (renorm_row v)
      = (1 / sqrt (norm_L2sqr v)) * (1 / sqrt (norm_L2sqr v)) * norm_L2sqr v"
    by (simp only: norm_L2sqr_def inner_product_scale)
  also have "\<dots> = 1"
    using pos by (simp add: field_simps)
  finally show ?thesis .
qed

lemma renorm_row_zero: "\<forall>x \<in> set v. x = 0 \<Longrightarrow> renorm_row v = v"
  using norm_L2sqr_zero_iff [of v] by (simp add: renorm_row_def Let_def)

lemma renorm_row_norm:
  "if (\<forall>x \<in> set v. x = 0) then renorm_row v = v else sqrt (norm_L2sqr (renorm_row v)) = 1"
  by (simp add: renorm_row_unit renorm_row_zero)

lemma shape1_Inr:
  "shape1 embeddings = Inr n \<Longrightarrow> embeddings \<noteq> [] \<and> (\<forall>row \<in> set embeddings. length row = n)"
  by (auto simp: shape1_def list_ex_iff split: list.splits if_splits)

lemma build_snapshot_Inr:
  assumes ok: "build_snapshot enc df = Inr (index, md)"
    and wf: "wf_frame df"
  shows "\<exists>text_col id_col embeddings.
           get_column df ''text'' = Some text_col
         \<and> get_column df ''id'' = Some id_col
         \<and> encode enc (map fillna (tolist text_col)) = Inr embeddings
         \<and> embeddings \<noteq> []
         \<and> (\<forall>row \<in> set embeddings. length row = dimension md)
         \<and> index = \<lparr>index_d = dimension md, index_xb = normalize_L2 embeddings\<rparr>
         \<and> md = \<lparr>reports = tolist text_col, ids = tolist id_col,
                  diseases = map extract_disease_name (tolist text_col),
                  dimension = dimension md, total_records = nrows df\<rparr>"
proof -
  from ok obtain text_col id_col where
    cols: "get_column df ''text'' = Some text_col" "get_column df ''id'' = Some id_col"
    by (auto simp: build_snapshot_def split: option.splits)
  have len: "length (tolist text_col) = nrows df"
    using wf cols(1) by (rule wf_get_column)
  from ok cols obtain embeddings where
    emb: "embed_batches enc (tolist text_col) (nrows df) 0 = Inr embeddings"
    by (auto simp: build_snapshot_def split: sum.splits)
  from ok cols emb obtain ndim where sh: "shape1 embeddings = Inr ndim"
    by (auto simp: build_snapshot_def split: sum.splits)
  from ok cols emb sh have
    add: "index_add (new_IndexFlatIP ndim) (normalize_L2 embeddings) = Inr index"
    and md: "md = \<lparr>reports = tolist text_col, ids = tolist id_col,
                  diseases = map extract_disease_name (tolist text_col),
                  dimension = ndim, total_records = nrows df\<rparr>"
    by (auto simp: build_snapshot_def split: sum.splits)
  from add have idx: "index = \<lparr>index_d = ndim, index_xb = normalize_L2 embeddings\<rparr>"
    by (auto simp: index_add_def new_IndexFlatIP_def split: if_splits)
  have enc: "encode enc (map fillna (tolist text_col)) = Inr embeddings"
    using emb embed_batches_all [OF len, of enc] by simp
  from md have d: "dimension md = ndim" by simp
  show ?thesis
    using cols enc shape1_Inr [OF sh] idx md d by auto
qed

lemma build_snapshot_placeholder:
  "build_snapshot unit_model placeholder_df =
     Inr (\<lparr>index_d = 2, index_xb = [[1, 0]]\<rparr>,
          \<lparr>reports = [PyStr sample_report], ids = [PyStr ''1''],
           diseases = [extract_disease_name (PyStr sample_report)],
           dimension = 2, total_records = 1\<rparr>)"
proof -
  have e: "embed_batches unit_model [PyStr sample_report] (Suc 0) 0 = Inr [[1, 0]]"
    by (simp add: embed_batches_all unit_model_def)
  have r: "renorm_row [1, 0] = [1, 0]"
    by (simp add: renorm_row_def norm_L2sqr_def inner_product_def)
  show ?thesis
    by (simp add: build_snapshot_def placeholder_df_def get_column_def sample_report_def [symmetric]
        e shape1_def index_add_def new_IndexFlatIP_def normalize_L2_def r)
qed

section \<open>A corpus of one record\<close>

lemma sample_report_label:
  "extract_disease_name (PyStr sample_report) = ''Radiographic Abnormality''"
  by code_simp

lemma build_placeholder:
  "build_snapshot unit_model placeholder_df
     = Inr (single_record_index, single_record_metadata)"
  by (simp add: build_snapshot_placeholder sample_report_label
      single_record_index_def single_record_metadata_def)

lemma load_placeholder:
  "load_dataset_body None = placeholder_df"
  by (simp add: load_dataset_body_def)

lemma startup_without_artifacts:
  "main_startup unit_model None (fresh_process Absent Absent) = Inr single_record_state"
  by (simp add: main_startup_def build_faiss_index_def fresh_process_def load_dataset_def
      build_placeholder load_placeholder single_record_state_def Let_def)

lemma renorm_unit_row: "renorm_row [1, 0] = [1, 0]"
  by (simp add: renorm_row_def norm_L2sqr_def inner_product_def)

lemma single_record_hits:
  "query_hits unit_model single_record_index query_text 5 = Inr padded_hits"
proof -
  have r: "replicate 4 x = [x, x, x, x]" for x :: "real \<times> int"
    by (simp add: numeral_eq_Suc)
  have "knn_inner_product [1, 0] [[1, 0]] 5 = padded_hits"
    by (simp add: knn_inner_product_def inner_product_def padded_hits_def r)
  then show ?thesis
    by (simp add: query_hits_def normalize_L2_def unit_model_def renorm_unit_row
        index_search_def single_record_index_def zip_map_fst_snd)
qed

lemma single_record_collect:
  "collect_results single_record_metadata padded_hits =
     Inr [sample_hit 1, sample_hit (- FLT_MAX), sample_hit (- FLT_MAX),
          sample_hit (- FLT_MAX), sample_hit (- FLT_MAX)]"
  by (simp add: padded_hits_def single_record_metadata_def py_index_def sample_hit_def)

lemma single_record_search:
  "search_similar_reports unit_model single_record_state query_text 5 =
     Inr [sample_hit 1, sample_hit (- FLT_MAX), sample_hit (- FLT_MAX),
          sample_hit (- FLT_MAX), sample_hit (- FLT_MAX)]"
  by (simp add: search_similar_reports_def single_record_state_def single_record_hits
      single_record_collect)

lemma collect_results_looked_up:
  "collect_results md hits = Inr rs \<Longrightarrow>
     map (\<lambda>r. Inr (report r)) rs = map (py_index (reports md)) (looked_up md hits)"
proof (induction md hits arbitrary: rs rule: collect_results.induct)
  case (1 md)
  then show ?case by (simp add: looked_up_def)
next
  case (2 md score idx rest)
  show ?case
  proof (cases "idx < int (length (reports md))")
    case False
    with 2 show ?thesis by (simp add: looked_up_def)
  next
    case True
    with 2(3) obtain r i d rs' where
      parts: "py_index (reports md) idx = Inr r" "py_index (ids md) idx = Inr i"
        "py_index (diseases md) idx = Inr d" "collect_results md rest = Inr rs'"
        "rs = \<lparr>report = r, ident = i, disease = d, similarity_score = score\<rparr> # rs'"
      by (auto split: sum.splits)
    have "map (\<lambda>r. Inr (report r)) rs' = map (py_index (reports md)) (looked_up md rest)"
      by (rule 2(1) [OF True refl parts(1) refl parts(2) parts(3) parts(4)])
    with True parts show ?thesis by (simp add: looked_up_def)
  qed
qed

lemma startup_index_only:
  "main_startup unit_model None (fresh_process (Stored single_record_index) Absent)
     = Inr half_loaded_state"
  by (simp add: main_startup_def load_faiss_index_def read_artifacts_def fresh_process_def
      half_loaded_state_def Let_def)

lemma build_index_only:
  "build_faiss_index unit_model None (fresh_process (Stored single_record_index) Absent) False
     = (Inr (Some single_record_index, Some single_record_metadata), single_record_state)"
  by (simp add: build_faiss_index_def fresh_process_def load_dataset_def build_placeholder
      load_placeholder single_record_state_def Let_def)

section \<open>The retrieval engine: build, search and start\<close>

lemma build_path:
  assumes "force_rebuild \<or> index_file s = Absent \<or> metadata_file s = Absent"
    and "build_faiss_index enc csv s force_rebuild = (Inr (Some index, Some md), s')"
  shows "build_snapshot enc (fst (load_dataset s csv)) = Inr (index, md)"
    and "faiss_index s' = Some index" and "metadata s' = Some md"
    and "index_file s' = Stored index" and "metadata_file s' = Stored md"
    and "load_cache s' = load_cache s"
proof -
  obtain df s0 where l: "load_dataset s csv = (df, s0)" by (cases "load_dataset s csv")
  from assms l have snap: "build_snapshot enc df = Inr (index, md)"
    and st: "s' = s0\<lparr>embedding_model := True, index_file := Stored index,
                 metadata_file := Stored md, faiss_index := Some index, metadata := Some md\<rparr>"
    by (auto simp: build_faiss_index_def Let_def split: sum.splits prod.splits)
  from snap l show "build_snapshot enc (fst (load_dataset s csv)) = Inr (index, md)" by simp
  show "faiss_index s' = Some index" "metadata s' = Some md"
    "index_file s' = Stored index" "metadata_file s' = Stored md"
    by (simp_all add: st)
  have "load_cache s0 = load_cache s"
    using load_dataset_state(6) [of s csv] l by simp
  then show "load_cache s' = load_cache s" by (simp add: st)
qed

text \<open>
  A snapshot that the build path of \<open>build_faiss_index\<close> returns (a forced rebuild, or
  an artifact absent) from well-formed frames is aligned: \<open>reports\<close>, \<open>ids\<close> and
  \<open>diseases\<close> have \<open>total_records\<close> entries, the number of rows of the loaded frame, and
  the index holds as many vectors; the vectors are what \<open>normalize_L2\<close> makes of the
  embeddings of the reports, in row order, and every label is the classification of the
  report of its row. The snapshot is what the call leaves in the object and in the two
  files.
\<close>

lemma build_snapshot_aligned:
  assumes "wf_csv csv" and "wf_system s"
    and "force_rebuild \<or> index_file s = Absent \<or> metadata_file s = Absent"
    and "build_faiss_index enc csv s force_rebuild = (Inr (Some index, Some md), s')"
  shows "length (reports md) = total_records md
       \<and> length (ids md) = total_records md
       \<and> length (diseases md) = total_records md
       \<and> ntotal index = total_records md
       \<and> total_records md = nrows (fst (load_dataset s csv))
       \<and> diseases md = map extract_disease_name (reports md)
       \<and> (\<exists>embeddings.
             encode enc (map fillna (reports md)) = Inr embeddings
           \<and> index_xb index = map renorm_row embeddings)
       \<and> faiss_index s' = Some index \<and> metadata s' = Some md
       \<and> index_file s' = Stored index \<and> metadata_file s' = Stored md"
proof -
  let ?df = "fst (load_dataset s csv)"
  have wf: "wf_frame ?df" using assms(1,2) by (rule wf_load_dataset)
  note bp = build_path [OF assms(3,4)]
  from build_snapshot_Inr [OF bp(1) wf] obtain text_col id_col embeddings where
    tc: "get_column ?df ''text'' = Some text_col"
    and ic: "get_column ?df ''id'' = Some id_col"
    and enc: "encode enc (map fillna (tolist text_col)) = Inr embeddings"
    and idx: "index = \<lparr>index_d = dimension md, index_xb = normalize_L2 embeddings\<rparr>"
    and md: "md = \<lparr>reports = tolist text_col, ids = tolist id_col,
                  diseases = map extract_disease_name (tolist text_col),
                  dimension = dimension md, total_records = nrows ?df\<rparr>"
    by blast
  have lt: "length (tolist text_col) = nrows ?df" using wf tc by (rule wf_get_column)
  have li: "length (tolist id_col) = nrows ?df" using wf ic by (rule wf_get_column)
  have le: "length embeddings = nrows ?df"
    using encode_length [OF enc] lt by simp
  have r: "reports md = tolist text_col" "ids md = tolist id_col"
    "diseases md = map extract_disease_name (tolist text_col)" "total_records md = nrows ?df"
    by (subst md, simp)+
  have xb: "index_xb index = map renorm_row embeddings"
    by (subst idx) (simp add: normalize_L2_def)
  have ex: "\<exists>embeddings.
             encode enc (map fillna (reports md)) = Inr embeddings
           \<and> index_xb index = map renorm_row embeddings"
    using enc xb r(1) by auto
  have n: "ntotal index = total_records md"
    using xb le r(4) by (simp add: ntotal_def)
  show ?thesis
    using r lt li n ex bp(2-5) by simp
qed

text \<open>
  C9. When the index or the metadata is missing, \<open>search_similar_reports\<close> returns the
  empty list, for every model, query and \<open>k\<close>, and raises nothing.
\<close>

theorem search_not_ready:
  "\<not> ready s \<Longrightarrow> search_similar_reports enc s query_text k = Inr []"
  by (auto simp: ready_def search_similar_reports_def split: option.splits)

theorem search_not_ready_witness:
  "\<not> ready (fresh_process Absent Absent)
   \<and> search_similar_reports unit_model (fresh_process Absent Absent) ''chest X-ray'' 5 = Inr []"
proof -
  have h: "\<not> ready (fresh_process Absent Absent)"
    by (simp add: ready_def fresh_process_def)
  from search_not_ready [OF h] h show ?thesis by simp
qed

text \<open>
  C1 at a corpus of one record. A process started without artifacts and with an
  unreadable data set builds its index from the placeholder record and is ready with one
  stored vector. A search with \<open>k = 5\<close> then returns five entries, not one: the four
  labels \<open>-1\<close> with which the library fills the missing slots pass the test
  \<open>idx < len(reports)\<close>, and each gives the last record again, with the score \<open>-FLT_MAX\<close>.
\<close>

theorem search_pads_single_record:
  "main_startup unit_model None (fresh_process Absent Absent) = Inr single_record_state
   \<and> ready single_record_state
   \<and> ntotal single_record_index = 1
   \<and> search_similar_reports unit_model single_record_state ''chest X-ray'' 5
       = Inr [sample_hit 1, sample_hit (- FLT_MAX), sample_hit (- FLT_MAX),
              sample_hit (- FLT_MAX), sample_hit (- FLT_MAX)]"
proof -
  have "ready single_record_state"
    by (simp add: ready_def single_record_state_def)
  moreover have "ntotal single_record_index = 1"
    by (simp add: ntotal_def single_record_index_def)
  ultimately show ?thesis
    using startup_without_artifacts single_record_search by simp
qed

text \<open>
  C2 at the same corpus. The positions with which the search indexes the metadata lists
  are \<open>0\<close> and four times \<open>-1\<close>; \<open>-1\<close> is not a stored position (there is one record,
  at position \<open>0\<close>), and \<open>reports[-1]\<close> is the last report.
\<close>

theorem search_indexes_with_padding_label:
  "query_hits unit_model single_record_index ''chest X-ray'' 5 = Inr padded_hits
   \<and> looked_up single_record_metadata padded_hits = [0, - 1, - 1, - 1, - 1]
   \<and> length (reports single_record_metadata) = 1
   \<and> py_index (reports single_record_metadata) (- 1) = Inr (PyStr sample_report)"
  by (simp add: single_record_hits looked_up_def padded_hits_def single_record_metadata_def
      py_index_def)

text \<open>
  C5 at a disk that holds the index file and no metadata file. \<open>main\<close> tests the index
  file only: it calls the loader, which fails on the metadata file, and the process is left
  not ready, with no rebuild and no metadata file written. \<open>build_faiss_index\<close>, which
  tests both files, rebuilds from the same state.
\<close>

theorem startup_ignores_missing_metadata:
  "main_startup unit_model None (fresh_process (Stored single_record_index) Absent)
     = Inr half_loaded_state
   \<and> \<not> ready half_loaded_state
   \<and> metadata_file half_loaded_state = Absent
   \<and> build_faiss_index unit_model None (fresh_process (Stored single_record_index) Absent) False
       = (Inr (Some single_record_index, Some single_record_metadata), single_record_state)"
  by (simp add: startup_index_only build_index_only ready_def half_loaded_state_def)

section \<open>Saving and loading\<close>

lemma search_depends_on_snapshot:
  "faiss_index s = faiss_index t \<Longrightarrow> metadata s = metadata t \<Longrightarrow>
     search_similar_reports enc s query_text k = search_similar_reports enc t query_text k"
  by (simp add: search_similar_reports_def)

lemma load_first_call:
  "load_cache s = None \<Longrightarrow> index_file s = Stored index \<Longrightarrow> metadata_file s = Stored md \<Longrightarrow>
     load_faiss_index s = ((Some index, Some md), s\<lparr>load_cache := Some (Some index, Some md)\<rparr>)"
  by (simp add: load_faiss_index_def read_artifacts_def Let_def)

lemma startup_loads:
  "load_cache s = None \<Longrightarrow> index_file s = Stored index \<Longrightarrow> metadata_file s = Stored md \<Longrightarrow>
     main_startup enc csv s =
       Inr (s\<lparr>load_cache := Some (Some index, Some md), faiss_index := Some index,
              metadata := Some md, embedding_model := True\<rparr>)"
  by (simp add: main_startup_def load_first_call)

text \<open>
  The model takes the two files to give back what was written into them. On that footing:
  after a build that succeeds, a new process started on the two files loads the snapshot
  that the build returned, and so does the building process when the memo of
  \<open>load_faiss_index\<close> is empty.
\<close>

lemma saved_snapshot_loads:
  assumes "force_rebuild \<or> index_file s = Absent \<or> metadata_file s = Absent"
    and "build_faiss_index enc csv s force_rebuild = (Inr (Some index, Some md), s1)"
  shows "(\<exists>s2. main_startup enc csv (fresh_process (index_file s1) (metadata_file s1)) = Inr s2
            \<and> faiss_index s2 = Some index \<and> metadata s2 = Some md)
       \<and> (load_cache s = None \<longrightarrow>
            fst (load_faiss_index s1) = (Some index, Some md)
          \<and> (\<exists>s2. main_startup enc csv s1 = Inr s2
                \<and> faiss_index s2 = Some index \<and> metadata s2 = Some md))"
proof -
  note f = build_path(2-6) [OF assms]
  let ?p = "fresh_process (index_file s1) (metadata_file s1)"
  have p: "load_cache ?p = None" "index_file ?p = Stored index" "metadata_file ?p = Stored md"
    by (simp_all add: fresh_process_def f)
  have a: "\<exists>s2. main_startup enc csv ?p = Inr s2
            \<and> faiss_index s2 = Some index \<and> metadata s2 = Some md"
  proof -
    let ?s2 = "?p\<lparr>load_cache := Some (Some index, Some md), faiss_index := Some index,
                 metadata := Some md, embedding_model := True\<rparr>"
    have "main_startup enc csv ?p = Inr ?s2"
      by (rule startup_loads [OF p])
    then show ?thesis
      by (intro exI [of _ ?s2] conjI) simp_all
  qed
  have b: "fst (load_faiss_index s1) = (Some index, Some md)
          \<and> (\<exists>s2. main_startup enc csv s1 = Inr s2
                \<and> faiss_index s2 = Some index \<and> metadata s2 = Some md)"
    if c: "load_cache s = None"
  proof -
    have c1: "load_cache s1 = None" using c f(5) by simp
    let ?s2 = "s1\<lparr>load_cache := Some (Some index, Some md), faiss_index := Some index,
                 metadata := Some md, embedding_model := True\<rparr>"
    have "fst (load_faiss_index s1) = (Some index, Some md)"
      by (simp add: load_first_call [OF c1 f(3,4)])
    moreover have "main_startup enc csv s1 = Inr ?s2"
      by (rule startup_loads [OF c1 f(3,4)])
    ultimately show ?thesis
      by (intro exI [of _ ?s2] conjI) simp_all
  qed
  show ?thesis
  proof (intro conjI impI)
    show "\<exists>s2. main_startup enc csv ?p = Inr s2
            \<and> faiss_index s2 = Some index \<and> metadata s2 = Some md"
      by (rule a)
  next
    assume c: "load_cache s = None"
    show "fst (load_faiss_index s1) = (Some index, Some md)"
      using b [OF c] by (rule conjunct1)
  next
    assume c: "load_cache s = None"
    show "\<exists>s2. main_startup enc csv s1 = Inr s2
                \<and> faiss_index s2 = Some index \<and> metadata s2 = Some md"
      using b [OF c] by (rule conjunct2)
  qed
qed

lemma old_startup:
  "main_startup unit_model None (fresh_process (Stored old_index) (Stored old_metadata))
     = Inr old_loaded_state"
  by (simp add: main_startup_def load_faiss_index_def read_artifacts_def fresh_process_def
      old_loaded_state_def Let_def)

lemma old_rebuild:
  "build_faiss_index unit_model None old_loaded_state True
     = (Inr (Some single_record_index, Some single_record_metadata), rebuilt_state)"
  by (simp add: build_faiss_index_def load_dataset_def build_placeholder load_placeholder
      old_loaded_state_def rebuilt_state_def Let_def)

lemma old_reload:
  "load_faiss_index rebuilt_state = ((Some old_index, Some old_metadata), rebuilt_state)"
  by (simp add: load_faiss_index_def rebuilt_state_def)

lemma rebuilt_files:
  "index_file rebuilt_state = Stored single_record_index"
  "metadata_file rebuilt_state = Stored single_record_metadata"
  by (simp_all add: rebuilt_state_def)

lemma rebuilt_rerun: "main_startup unit_model None rebuilt_state = Inr stale_state"
  by (simp add: main_startup_def load_faiss_index_def rebuilt_state_def stale_state_def)

lemma old_rebuild_button: "rebuild_button unit_model None old_loaded_state = Inr stale_state"
  by (simp add: rebuild_button_def old_rebuild rebuilt_rerun)

lemma restart_on_new_files:
  "main_startup unit_model None
      (fresh_process (Stored single_record_index) (Stored single_record_metadata))
     = Inr restarted_state"
  by (simp add: main_startup_def load_faiss_index_def read_artifacts_def fresh_process_def
      restarted_state_def Let_def)

lemma single_record_hit:
  "query_hits unit_model single_record_index ''chest X-ray'' 1 = Inr [(1, 0)]"
proof -
  have "knn_inner_product [1, 0] [[1, 0]] 1 = [(1, 0)]"
    by (simp add: knn_inner_product_def inner_product_def)
  then show ?thesis
    by (simp add: query_hits_def normalize_L2_def unit_model_def renorm_unit_row
        index_search_def single_record_index_def)
qed

lemma old_record_hit:
  "query_hits unit_model old_index ''chest X-ray'' 1 = Inr [(0, 0)]"
proof -
  have "knn_inner_product [1, 0] [[0, 1]] 1 = [(0, 0)]"
    by (simp add: knn_inner_product_def inner_product_def)
  then show ?thesis
    by (simp add: query_hits_def normalize_L2_def unit_model_def renorm_unit_row
        index_search_def old_index_def)
qed

lemma rebuilt_search:
  "search_similar_reports unit_model rebuilt_state ''chest X-ray'' 1 = Inr [sample_hit 1]"
  by (simp add: search_similar_reports_def rebuilt_state_def single_record_hit
      single_record_metadata_def py_index_def sample_hit_def)

lemma restarted_search:
  "search_similar_reports unit_model restarted_state ''chest X-ray'' 1 = Inr [sample_hit 1]"
  by (simp add: search_similar_reports_def restarted_state_def single_record_hit
      single_record_metadata_def py_index_def sample_hit_def)

lemma stale_search:
  "search_similar_reports unit_model stale_state ''chest X-ray'' 1 = Inr [old_hit 0]"
  by (simp add: search_similar_reports_def stale_state_def old_record_hit
      old_metadata_def py_index_def old_hit_def)

lemma hits_differ: "sample_hit 1 \<noteq> old_hit 0"
  by (simp add: sample_hit_def old_hit_def)

text \<open>
  C4 at a process that has loaded before. The process starts on the files of an older
  snapshot and loads it. The \<open>Rebuild\<close> button builds the new snapshot and writes it into
  the two files; the load that follows returns the memoised older snapshot, which the
  rerun of \<open>main\<close> puts back into the object, and the query is answered with the old
  report instead of the new one. A new process started on the same two files loads the
  new snapshot and answers as the build does.
\<close>

theorem rebuild_loads_stale_snapshot:
  "main_startup unit_model None (fresh_process (Stored old_index) (Stored old_metadata))
     = Inr old_loaded_state
   \<and> build_faiss_index unit_model None old_loaded_state True
       = (Inr (Some single_record_index, Some single_record_metadata), rebuilt_state)
   \<and> index_file rebuilt_state = Stored single_record_index
   \<and> metadata_file rebuilt_state = Stored single_record_metadata
   \<and> load_faiss_index rebuilt_state = ((Some old_index, Some old_metadata), rebuilt_state)
   \<and> rebuild_button unit_model None old_loaded_state = Inr stale_state
   \<and> search_similar_reports unit_model rebuilt_state ''chest X-ray'' 1 = Inr [sample_hit 1]
   \<and> search_similar_reports unit_model stale_state ''chest X-ray'' 1 = Inr [old_hit 0]
   \<and> sample_hit 1 \<noteq> old_hit 0
   \<and> main_startup unit_model None
        (fresh_process (Stored single_record_index) (Stored single_record_metadata))
       = Inr restarted_state
   \<and> search_similar_reports unit_model restarted_state ''chest X-ray'' 1 = Inr [sample_hit 1]"
  by (intro conjI)
     (rule old_startup old_rebuild rebuilt_files old_reload old_rebuild_button rebuilt_search
           stale_search hits_differ restart_on_new_files restarted_search)+

section \<open>The corpus loader\<close>

lemma load_dataset_body_text:
  "resolve_text df = Inr df' \<Longrightarrow>
     get_column (load_dataset_body (Some df)) ''text'' = get_column df' ''text''"
  by (simp add: load_dataset_body_def resolve_id_columns)

text \<open>
  The \<open>text\<close> column of the frame that the body of \<open>load_dataset\<close> returns for a source
  that \<open>pd.read_csv\<close> can read: the \<open>text\<close> column of the source when it has one; else
  its \<open>report\<close> column when it has one; else, when it has columns of dtype \<open>object\<close> and
  the \<open>.str\<close> accessor takes every one of them, one of them, chosen so that no other has
  a greater mean string length; else, when it has no column of dtype \<open>object\<close>, a column
  that gives every row the text \<open>No report available\<close>. When the \<open>.str\<close> accessor raises
  on a column of dtype \<open>object\<close>, the result is the placeholder frame.
\<close>

lemma text_column_resolution:
  "(has_column df ''text'' \<longrightarrow>
      get_column (load_dataset_body (Some df)) ''text'' = get_column df ''text'')
   \<and> (\<not> has_column df ''text'' \<and> has_column df ''report'' \<longrightarrow>
      get_column (load_dataset_body (Some df)) ''text'' = get_column df ''report'')
   \<and> (\<not> has_column df ''text'' \<and> \<not> has_column df ''report'' \<and> object_columns df \<noteq> []
        \<and> (\<forall>x \<in> set (object_columns df). \<exists>v. mean_len_key df x = Inr v) \<longrightarrow>
      (\<exists>longest_col \<in> set (object_columns df).
          get_column (load_dataset_body (Some df)) ''text'' = get_column df longest_col
        \<and> get_column df longest_col \<noteq> None
        \<and> (\<forall>x \<in> set (object_columns df).
              \<exists>xv mv. mean_len_key df x = Inr xv \<and> mean_len_key df longest_col = Inr mv
                     \<and> \<not> nan_gt xv mv)))
   \<and> (\<not> has_column df ''text'' \<and> \<not> has_column df ''report''
        \<and> (\<exists>x \<in> set (object_columns df). \<exists>e. mean_len_key df x = Inl e) \<longrightarrow>
      load_dataset_body (Some df) = placeholder_df)
   \<and> (\<not> has_column df ''text'' \<and> \<not> has_column df ''report'' \<and> object_columns df = [] \<longrightarrow>
      get_column (load_dataset_body (Some df)) ''text''
        = Some (ObjectCol (replicate (nrows df) (PyStr ''No report available''))))"
proof (intro conjI impI)
  assume "has_column df ''text''"
  then have "resolve_text df = Inr df" by (simp add: resolve_text_def)
  from load_dataset_body_text [OF this]
  show "get_column (load_dataset_body (Some df)) ''text'' = get_column df ''text''" .
next
  assume h: "\<not> has_column df ''text'' \<and> has_column df ''report''"
  then obtain c where c: "get_column df ''report'' = Some c"
    by (auto simp: has_column_get)
  with h have "resolve_text df = Inr (set_column df ''text'' c)"
    by (simp add: resolve_text_def)
  from load_dataset_body_text [OF this] c
  show "get_column (load_dataset_body (Some df)) ''text'' = get_column df ''report''"
    by (simp add: get_set_column)
next
  assume h: "\<not> has_column df ''text'' \<and> \<not> has_column df ''report'' \<and> object_columns df = []"
  then have "resolve_text df = Inr (set_column df ''text''
                       (ObjectCol (replicate (nrows df) (PyStr ''No report available''))))"
    by (simp add: resolve_text_def)
  from load_dataset_body_text [OF this]
  show "get_column (load_dataset_body (Some df)) ''text''
        = Some (ObjectCol (replicate (nrows df) (PyStr ''No report available'')))"
    by (simp add: get_set_column)
next
  assume h: "\<not> has_column df ''text'' \<and> \<not> has_column df ''report''
        \<and> (\<exists>x \<in> set (object_columns df). \<exists>e. mean_len_key df x = Inl e)"
  then obtain x e where x: "x \<in> set (object_columns df)" "mean_len_key df x = Inl e"
    by blast
  then obtain first_col more_cols where oc: "object_columns df = first_col # more_cols"
    by (cases "object_columns df") auto
  from x oc have "x \<in> set (first_col # more_cols)" by simp
  from py_max_raises [of x first_col more_cols "mean_len_key df" e, OF this x(2)] obtain e' where
    "py_max (mean_len_key df) first_col more_cols = Inl e'" by blast
  with h oc have "resolve_text df = Inl e'" by (simp add: resolve_text_def)
  then show "load_dataset_body (Some df) = placeholder_df"
    by (simp add: load_dataset_body_def)
next
  assume h: "\<not> has_column df ''text'' \<and> \<not> has_column df ''report'' \<and> object_columns df \<noteq> []
        \<and> (\<forall>x \<in> set (object_columns df). \<exists>v. mean_len_key df x = Inr v)"
  then obtain first_col more_cols where oc: "object_columns df = first_col # more_cols"
    by (cases "object_columns df") auto
  from h oc have "\<forall>x \<in> set (first_col # more_cols). \<exists>v. mean_len_key df x = Inr v" by simp
  from py_max_succeeds [OF this] obtain m where
    m: "py_max (mean_len_key df) first_col more_cols = Inr m" by blast
  have mem: "m \<in> set (object_columns df)"
    using py_max_mem [OF m] oc by simp
  then have "has_column df m" by (rule object_columns_has)
  then obtain c where c: "get_column df m = Some c" by (auto simp: has_column_get)
  from h oc m c have "resolve_text df = Inr (set_column df ''text'' c)"
    by (simp add: resolve_text_def)
  from load_dataset_body_text [OF this] c
  have t: "get_column (load_dataset_body (Some df)) ''text'' = get_column df m"
    by (simp add: get_set_column)
  have g: "\<forall>x \<in> set (object_columns df).
              \<exists>xv mv. mean_len_key df x = Inr xv \<and> mean_len_key df m = Inr mv
                     \<and> \<not> nan_gt xv mv"
  proof
    fix x assume "x \<in> set (object_columns df)"
    with oc have "x \<in> set (first_col # more_cols)" by simp
    from py_max_greatest [OF m this]
    show "\<exists>xv mv. mean_len_key df x = Inr xv \<and> mean_len_key df m = Inr mv \<and> \<not> nan_gt xv mv" .
  qed
  show "\<exists>longest_col \<in> set (object_columns df).
          get_column (load_dataset_body (Some df)) ''text'' = get_column df longest_col
        \<and> get_column df longest_col \<noteq> None
        \<and> (\<forall>x \<in> set (object_columns df).
              \<exists>xv mv. mean_len_key df x = Inr xv \<and> mean_len_key df longest_col = Inr mv
                     \<and> \<not> nan_gt xv mv)"
    using mem t c g by (intro bexI [of _ m]) simp_all
qed

lemma frame_with_notes_facts:
  "\<not> has_column frame_with_notes ''text''"
  "\<not> has_column frame_with_notes ''report''"
  "object_columns frame_with_notes = [''view'', ''findings'', ''impression'']"
  "mean_len_key frame_with_notes ''view'' = Inr (Some 2)"
  "mean_len_key frame_with_notes ''findings'' = Inr (Some 16)"
  "mean_len_key frame_with_notes ''impression'' = Inr (Some (17 / 2))"
  "get_column (load_dataset_body (Some frame_with_notes)) ''text''
     = Some (ObjectCol [PyStr ''no acute disease'', PyNaN])"
  by code_simp+

lemma frame_other_facts:
  "get_column (load_dataset_body (Some frame_with_text)) ''text''
     = Some (ObjectCol [PyStr ''short''])"
  "get_column (load_dataset_body (Some frame_with_report)) ''text''
     = Some (ObjectCol [PyStr ''clear''])"
  "get_column (load_dataset_body (Some frame_numeric)) ''text''
     = Some (ObjectCol [PyStr ''No report available'', PyStr ''No report available''])"
  by code_simp+

lemma frame_with_flag_facts:
  "\<not> has_column frame_with_flag ''text''"
  "\<not> has_column frame_with_flag ''report''"
  "object_columns frame_with_flag = [''abnormal'']"
  "mean_len_key frame_with_flag ''abnormal'' = Inl AttributeError"
  "resolve_text frame_with_flag = Inl AttributeError"
  "load_dataset_body (Some frame_with_flag) = placeholder_df"
  "nrows frame_with_flag = 2"
  "nrows placeholder_df = 1"
  by code_simp+

lemma frame_with_notes_and_flag_facts:
  "\<not> has_column frame_with_notes_and_flag ''text''"
  "\<not> has_column frame_with_notes_and_flag ''report''"
  "object_columns frame_with_notes_and_flag = [''notes'', ''abnormal'']"
  "mean_len_key frame_with_notes_and_flag ''notes'' = Inr (Some (37 / 2))"
  "mean_len_key frame_with_notes_and_flag ''abnormal'' = Inl AttributeError"
  "load_dataset_body (Some frame_with_notes_and_flag) = placeholder_df"
  by code_simp+

lemma fresh_load_with_flag:
  "fst (load_dataset (fresh_process Absent Absent) (Some frame_with_flag)) = placeholder_df"
  by (simp add: load_dataset_first_call fresh_process_def frame_with_flag_facts(6))

text \<open>
  C8 at a source that \<open>pd.read_csv\<close> reads and that has a column of booleans with a
  missing cell. The frame has no \<open>text\<close> and no \<open>report\<close> column; its one column of dtype
  \<open>object\<close> holds no string, the \<open>.str\<close> accessor raises on it, and the loader returns
  the placeholder frame of one record: neither a column of the source nor the text
  \<open>No report available\<close> for each of its two rows. With a column of notes beside the
  booleans the result is the same, and the notes are not used.
\<close>

theorem load_dataset_drops_flagged_frame:
  "\<not> has_column frame_with_flag ''text''
   \<and> \<not> has_column frame_with_flag ''report''
   \<and> object_columns frame_with_flag = [''abnormal'']
   \<and> mean_len_key frame_with_flag ''abnormal'' = Inl AttributeError
   \<and> load_dataset_body (Some frame_with_flag) = placeholder_df
   \<and> fst (load_dataset (fresh_process Absent Absent) (Some frame_with_flag)) = placeholder_df
   \<and> nrows frame_with_flag = 2
   \<and> nrows placeholder_df = 1
   \<and> object_columns frame_with_notes_and_flag = [''notes'', ''abnormal'']
   \<and> mean_len_key frame_with_notes_and_flag ''notes'' = Inr (Some (37 / 2))
   \<and> load_dataset_body (Some frame_with_notes_and_flag) = placeholder_df"
  by (intro conjI)
     (rule frame_with_flag_facts(1-4,6-8) fresh_load_with_flag
           frame_with_notes_and_flag_facts(3,4,6))+

section \<open>Searches that ask for no more than the corpus holds\<close>

text \<open>
  With \<open>0 < k \<le> N\<close> on a snapshot that the build path made, the library fills no slot,
  every label is a stored position, and the search returns \<open>k\<close> entries in
  non-increasing order of score. Each score is the inner product of two normalised
  vectors; in the arithmetic of the real numbers it lies between \<open>-1\<close> and \<open>1\<close>.
\<close>

lemma inner_product_Nil: "inner_product [] y = 0" "inner_product x [] = 0"
  by (simp_all add: inner_product_def)

lemma inner_product_Cons: "inner_product (a # x) (b # y) = a * b + inner_product x y"
  by (simp add: inner_product_def)

lemma inner_product_upper: "2 * inner_product x y \<le> norm_L2sqr x + norm_L2sqr y"
proof (induction x arbitrary: y)
  case Nil
  show ?case using norm_L2sqr_nonneg [of y] by (simp add: inner_product_Nil norm_L2sqr_def)
next
  case (Cons a x)
  show ?case
  proof (cases y)
    case Nil
    then show ?thesis
      using norm_L2sqr_nonneg [of "a # x"] by (simp add: inner_product_Nil norm_L2sqr_def)
  next
    case (Cons b y')
    have "0 \<le> (a - b) * (a - b)" by simp
    then have "2 * (a * b) \<le> a * a + b * b" by (simp add: algebra_simps)
    with Cons.IH [of y'] show ?thesis
      unfolding Cons by (simp add: inner_product_Cons norm_L2sqr_Cons)
  qed
qed

lemma inner_product_lower: "- (norm_L2sqr x + norm_L2sqr y) \<le> 2 * inner_product x y"
proof (induction x arbitrary: y)
  case Nil
  show ?case using norm_L2sqr_nonneg [of y] by (simp add: inner_product_Nil norm_L2sqr_def)
next
  case (Cons a x)
  show ?case
  proof (cases y)
    case Nil
    then show ?thesis
      using norm_L2sqr_nonneg [of "a # x"] by (simp add: inner_product_Nil norm_L2sqr_def)
  next
    case (Cons b y')
    have "0 \<le> (a + b) * (a + b)" by simp
    then have "- (a * a + b * b) \<le> 2 * (a * b)" by (simp add: algebra_simps)
    with Cons.IH [of y'] show ?thesis
      unfolding Cons by (simp add: inner_product_Cons norm_L2sqr_Cons)
  qed
qed

lemma renorm_row_le_one: "norm_L2sqr (renorm_row v) \<le> 1"
proof (cases "\<forall>x \<in> set v. x = 0")
  case True
  then have "renorm_row v = v" by (rule renorm_row_zero)
  moreover have "norm_L2sqr v = 0" using True by (simp add: norm_L2sqr_zero_iff)
  ultimately show ?thesis by simp
next
  case False
  then show ?thesis by (simp add: renorm_row_unit)
qed

lemma cosine_bounds:
  "- 1 \<le> inner_product (renorm_row q) (renorm_row v)
   \<and> inner_product (renorm_row q) (renorm_row v) \<le> 1"
  using inner_product_upper [of "renorm_row q" "renorm_row v"]
    inner_product_lower [of "renorm_row q" "renorm_row v"]
    renorm_row_le_one [of q] renorm_row_le_one [of v]
  by linarith

lemma knn_length: "length (knn_inner_product q xb k) = k"
  by (simp add: knn_inner_product_def Let_def)

lemma knn_within:
  assumes "k \<le> length xb"
  shows "knn_inner_product q xb k =
           sort_key (\<lambda>(score, label). - score)
             (sort_key (\<lambda>(score, label). - label)
                (take k (sort_key (\<lambda>(score, label). - score)
                           (zip (map (inner_product q) xb) (map int [0..<length xb])))))"
  using assms by (simp add: knn_inner_product_def Let_def)

lemma knn_entries:
  assumes "k \<le> length xb" and "(score, label) \<in> set (knn_inner_product q xb k)"
  shows "0 \<le> label \<and> label < int (length xb) \<and> score = inner_product q (xb ! nat label)"
proof -
  let ?scored = "zip (map (inner_product q) xb) (map int [0..<length xb])"
  have "(score, label) \<in> set (take k (sort_key (\<lambda>(score, label). - score) ?scored))"
    using assms(2) unfolding knn_within [OF assms(1)] by simp
  then have "(score, label) \<in> set (sort_key (\<lambda>(score, label). - score) ?scored)"
    by (rule in_set_takeD)
  then have "(score, label) \<in> set ?scored" by simp
  then obtain i where i: "i < length xb" "score = inner_product q (xb ! i)" "label = int i"
    by (auto simp: set_zip)
  then show ?thesis by simp
qed

lemma knn_sorted:
  assumes "k \<le> length xb"
  shows "sorted (map (\<lambda>(score, label). - score) (knn_inner_product q xb k))"
  unfolding knn_within [OF assms] by (rule sorted_sort_key)

lemma collect_results_valid:
  assumes "\<forall>(score, idx) \<in> set hits. 0 \<le> idx \<and> idx < int (length (reports md))"
    and "length (ids md) = length (reports md)"
    and "length (diseases md) = length (reports md)"
  shows "collect_results md hits =
           Inr (map (\<lambda>(score, idx).
                      \<lparr>report = reports md ! nat idx, ident = ids md ! nat idx,
                       disease = diseases md ! nat idx, similarity_score = score\<rparr>) hits)"
  using assms(1)
proof (induction hits)
  case Nil
  show ?case by simp
next
  case (Cons h hits)
  obtain score idx where h: "h = (score, idx)" by (cases h)
  from Cons.prems h have v: "0 \<le> idx" "idx < int (length (reports md))" by auto
  from Cons.prems have "\<forall>(score, idx) \<in> set hits. 0 \<le> idx \<and> idx < int (length (reports md))"
    by simp
  then have ih: "collect_results md hits =
           Inr (map (\<lambda>(score, idx).
                      \<lparr>report = reports md ! nat idx, ident = ids md ! nat idx,
                       disease = diseases md ! nat idx, similarity_score = score\<rparr>) hits)"
    by (rule Cons.IH)
  have p: "py_index (reports md) idx = Inr (reports md ! nat idx)"
    "py_index (ids md) idx = Inr (ids md ! nat idx)"
    "py_index (diseases md) idx = Inr (diseases md ! nat idx)"
    using v assms(2,3) by (simp_all add: py_index_def)
  show ?case unfolding h using v(2) p ih by simp
qed

lemma search_within_corpus:
  assumes "wf_csv csv" and "wf_system s"
    and "force_rebuild \<or> index_file s = Absent \<or> metadata_file s = Absent"
    and "build_faiss_index enc csv s force_rebuild = (Inr (Some index, Some md), s')"
    and "0 < k" and "k \<le> int (total_records md)"
    and "length (enc query_text) = dimension md"
  shows "\<exists>rs. search_similar_reports enc s' query_text k = Inr rs
            \<and> length rs = nat k
            \<and> sorted (map (\<lambda>r. - similarity_score r) rs)
            \<and> (\<forall>r \<in> set rs. - 1 \<le> similarity_score r \<and> similarity_score r \<le> 1)"
proof -
  let ?df = "fst (load_dataset s csv)"
  have wf: "wf_frame ?df" using assms(1,2) by (rule wf_load_dataset)
  note bp = build_path [OF assms(3,4)]
  note snap = bp(1)
  from build_snapshot_Inr [OF snap wf] obtain text_col id_col embeddings where
    tc: "get_column ?df ''text'' = Some text_col"
    and ic: "get_column ?df ''id'' = Some id_col"
    and enc: "encode enc (map fillna (tolist text_col)) = Inr embeddings"
    and idx: "index = \<lparr>index_d = dimension md, index_xb = normalize_L2 embeddings\<rparr>"
    and md: "md = \<lparr>reports = tolist text_col, ids = tolist id_col,
                  diseases = map extract_disease_name (tolist text_col),
                  dimension = dimension md, total_records = nrows ?df\<rparr>"
    by blast
  have lt: "length (tolist text_col) = nrows ?df" using wf tc by (rule wf_get_column)
  have li: "length (tolist id_col) = nrows ?df" using wf ic by (rule wf_get_column)
  have r: "reports md = tolist text_col" "ids md = tolist id_col"
    "diseases md = map extract_disease_name (tolist text_col)" "total_records md = nrows ?df"
    by (subst md, simp)+
  let ?xb = "map renorm_row embeddings"
  let ?q = "renorm_row (enc query_text)"
  let ?hits = "knn_inner_product ?q ?xb (nat k)"
  have n: "length ?xb = total_records md"
    using encode_length [OF enc] lt r(4) by simp
  have kn: "nat k \<le> length ?xb" using assms(5,6) n by simp
  have xb: "index_xb index = ?xb" "index_d index = dimension md"
    by (subst idx, simp add: normalize_L2_def)+
  have hits: "query_hits enc index query_text k = Inr ?hits"
    using assms(5,7)
    by (simp add: query_hits_def normalize_L2_def index_search_def xb length_renorm_row
        zip_map_fst_snd)
  have valid: "\<forall>(score, idx) \<in> set ?hits. 0 \<le> idx \<and> idx < int (length (reports md))"
  proof (intro ballI, clarify)
    fix score label assume "(score, label) \<in> set ?hits"
    from knn_entries [OF kn this] show "0 \<le> label \<and> label < int (length (reports md))"
      using n r(1,4) lt by simp
  qed
  let ?rs = "map (\<lambda>(score, idx).
                      \<lparr>report = reports md ! nat idx, ident = ids md ! nat idx,
                       disease = diseases md ! nat idx, similarity_score = score\<rparr>) ?hits"
  have col: "collect_results md ?hits = Inr ?rs"
    using valid by (rule collect_results_valid) (simp_all add: r lt li)
  note fields = bp(2,3)
  have res: "search_similar_reports enc s' query_text k = Inr ?rs"
    by (simp add: search_similar_reports_def fields hits col)
  have len: "length ?rs = nat k" by (simp add: knn_length)
  have sc: "map (\<lambda>r. - similarity_score r) ?rs = map (\<lambda>(score, label). - score) ?hits"
    by (simp add: case_prod_unfold comp_def)
  have srt: "sorted (map (\<lambda>r. - similarity_score r) ?rs)"
    unfolding sc by (rule knn_sorted [OF kn])
  have bnd: "\<forall>r \<in> set ?rs. - 1 \<le> similarity_score r \<and> similarity_score r \<le> 1"
  proof
    fix r assume "r \<in> set ?rs"
    then obtain score label where
      h: "(score, label) \<in> set ?hits" and rs: "similarity_score r = score"
      by auto
    from knn_entries [OF kn h] have
      l: "0 \<le> label" "label < int (length ?xb)" and s: "score = inner_product ?q (?xb ! nat label)"
      by simp_all
    from l have "nat label < length embeddings" by simp
    then have "?xb ! nat label = renorm_row (embeddings ! nat label)" by simp
    with s rs cosine_bounds [of "enc query_text" "embeddings ! nat label"]
    show "- 1 \<le> similarity_score r \<and> similarity_score r \<le> 1" by simp
  qed
  from res len srt bnd show ?thesis by blast
qed

section \<open>Loading, and rebuilding after a load\<close>

text \<open>
  A first load gives a snapshot exactly when both files hold one. After a load, the
  \<open>Rebuild\<close> button writes the new files, and the rerun of \<open>main\<close> that follows puts the
  memoised result of the first load back into the object.
\<close>

lemma load_ready_iff:
  assumes "load_cache s = None"
  shows "fst (load_faiss_index s) = (Some index, Some md)
           \<longleftrightarrow> index_file s = Stored index \<and> metadata_file s = Stored md"
  using assms
  by (auto simp: load_faiss_index_def read_artifacts_def Let_def split: artifact.splits)

lemma rebuild_after_half_load:
  "rebuild_button unit_model None half_loaded_state =
     Inr (half_loaded_state
            \<lparr>index_file := Stored single_record_index,
             metadata_file := Stored single_record_metadata,
             dataset_cache := Some placeholder_df\<rparr>)"
  by (simp add: rebuild_button_def build_faiss_index_def load_dataset_def build_placeholder
      load_placeholder main_startup_def load_faiss_index_def half_loaded_state_def Let_def)

end
